theory Spec2Isabelle
  imports Main
begin

section \<open>Data model\<close>

text \<open>
  The module \<^verbatim>\<open>device_manager.py\<close> keeps its whole state in five class attributes of
  \<^verbatim>\<open>DeviceManager\<close> and delegates device enumeration, memory growth and strategy
  construction to TensorFlow. The class attributes are the \<open>cls_\<close> fields of the record
  \<open>world\<close> below. What lies outside the module is the \<open>platform\<close>: Python's
  \<^verbatim>\<open>str.upper\<close>, and for the framework the devices it reports and the calls of it that
  may raise. The \<open>tf_\<close> fields of \<open>world\<close> are the framework's side of the state: the
  objects it has allocated, the calls it has received, in order, and the scopes that are
  entered.
\<close>

record PhysicalDevice =
  name :: string
  device_type :: string

text \<open>
  A device identifier is an \<^verbatim>\<open>int\<close> (a \<^verbatim>\<open>bool\<close> is an \<^verbatim>\<open>int\<close> in Python and is
  carried as \<open>IntId 0\<close> or \<open>IntId 1\<close>), a \<^verbatim>\<open>str\<close>, or any other value. The argument of
  \<^verbatim>\<open>cpu\<close> and \<^verbatim>\<open>gpu\<close> is a list of identifiers or a single one.
\<close>

datatype ident = IntId int | StrId string | OtherId

datatype devices_arg = One ident | Many "ident list"

datatype cause = DeviceNotAvailable ident | ListIndexOutOfRange

datatype exn = IndexError cause | RuntimeError | ValueError | AttributeError | AssertionError

text \<open>
  Strategies and their scopes are objects of the framework. The natural number is the
  identity of the object (the order of its allocation), so that two strategies over the
  same devices are still two instances.
\<close>

datatype strategy = OneDeviceStrategy nat string | MirroredStrategy nat "string list"

datatype strategy_scope = StrategyScope nat strategy

text \<open>The calls of the framework that the log keeps, with their arguments.\<close>

datatype tf_call =
  SetMemoryGrowth PhysicalDevice bool
  | NewOneDeviceStrategy string
  | NewMirroredStrategy "string list"

text \<open>
  A string is the sequence of its bytes in UTF-8, and \<open>str_upper\<close> is Python's
  \<^verbatim>\<open>str.upper\<close> on it, with all of Unicode's case mappings. Setting the memory growth and
  constructing a strategy raise the given exception, or return when there is none.
  Leaving the current scope returns \<open>scope_exit_result\<close>; leaving a scope that is not
  the current one raises \<open>scope_exit_error\<close>.
\<close>

record platform =
  str_upper :: "string \<Rightarrow> string"
  list_physical_devices :: "string \<Rightarrow> PhysicalDevice list"
  set_memory_growth :: "PhysicalDevice \<Rightarrow> bool \<Rightarrow> exn option"
  one_device_strategy :: "string \<Rightarrow> exn option"
  mirrored_strategy :: "string list \<Rightarrow> exn option"
  scope_exit_result :: "strategy_scope \<Rightarrow> exn option \<Rightarrow> bool option"
  scope_exit_error :: "strategy_scope \<Rightarrow> exn option \<Rightarrow> exn"

record world =
  cls_device :: "string option"
  cls_device_list :: "PhysicalDevice list"
  cls_strategy :: "strategy option"
  cls_scope :: "strategy_scope option"
  cls_growth :: bool
  tf_next :: nat
  tf_log :: "tf_call list"
  tf_entered :: "strategy_scope list"
  tf_again :: "strategy_scope list"

definition initial :: world where
  "initial = \<lparr>cls_device = None, cls_device_list = [], cls_strategy = None,
     cls_scope = None, cls_growth = False,
     tf_next = 0, tf_log = [], tf_entered = [], tf_again = []\<rparr>"

section \<open>Strings and lists as Python has them\<close>

text \<open>
  Upper and lower case on the ASCII letters; every other byte is left as it is. On a
  string of ASCII characters this is what \<^verbatim>\<open>str.upper\<close> and \<^verbatim>\<open>str.lower\<close> do.
\<close>

definition upper_char :: "char \<Rightarrow> char" where
  "upper_char c =
     (let n = (of_char c :: nat) in if 97 \<le> n \<and> n \<le> 122 then char_of (n - 32) else c)"

definition lower_char :: "char \<Rightarrow> char" where
  "lower_char c =
     (let n = (of_char c :: nat) in if 65 \<le> n \<and> n \<le> 90 then char_of (n + 32) else c)"

definition upper :: "string \<Rightarrow> string" where
  "upper s = map upper_char s"

definition lower :: "string \<Rightarrow> string" where
  "lower s = map lower_char s"

text \<open>\<^verbatim>\<open>s.split(sep)\<close> for a separator of one character: never an empty list.\<close>

fun split_on :: "char \<Rightarrow> string \<Rightarrow> string list" where
  "split_on sep [] = [[]]"
| "split_on sep (c # cs) =
     (if c = sep then [] # split_on sep cs
      else (let ps = split_on sep cs in (c # hd ps) # tl ps))"

text \<open>\<^verbatim>\<open>xs[i]\<close>: a negative index counts from the end, out of range raises.\<close>

definition getitem :: "'a list \<Rightarrow> int \<Rightarrow> exn + 'a" where
  "getitem xs i =
     (let j = (if i < 0 then i + int (length xs) else i)
      in if j < 0 \<or> int (length xs) \<le> j then Inl (IndexError ListIndexOutOfRange)
         else Inr (xs ! nat j))"

section \<open>The static methods\<close>

fun short_names_loop :: "PhysicalDevice list \<Rightarrow> string list \<Rightarrow> exn + string list" where
  "short_names_loop [] result = Inr result"
| "short_names_loop (device_name # devices) result =
     (let parts = split_on CHR '':'' (name device_name) in
      case getitem parts (- 2) of
        Inl e \<Rightarrow> Inl e
      | Inr p2 \<Rightarrow>
          (case getitem parts (- 1) of
             Inl e \<Rightarrow> Inl e
           | Inr p1 \<Rightarrow>
               short_names_loop devices (result @ [''/'' @ lower p2 @ '':'' @ p1])))"

definition short_names :: "PhysicalDevice list \<Rightarrow> exn + string list" where
  "short_names devices = short_names_loop devices []"

text \<open>
  \<^verbatim>\<open>_to_index\<close> and \<^verbatim>\<open>_select_from_available\<close> use \<^verbatim>\<open>str.upper\<close>: it is their first
  argument \<open>up\<close>.
\<close>

fun to_index :: "(string \<Rightarrow> string) \<Rightarrow> ident \<Rightarrow> int" where
  "to_index up (IntId i) = i"
| "to_index up (StrId s) =
     (case map_of [(''FIRST'', 0), (''SECOND'', 1), (''THIRD'', 2), (''FOURTH'', 3)] (up s) of
        Some i \<Rightarrow> i
      | None \<Rightarrow> - 1)"
| "to_index up OtherId = - 1"

fun select_loop :: "(string \<Rightarrow> string) \<Rightarrow> ident list \<Rightarrow> PhysicalDevice list
    \<Rightarrow> PhysicalDevice list \<Rightarrow> exn + PhysicalDevice list" where
  "select_loop up [] available result = Inr result"
| "select_loop up (device_identifier # device_list) available result =
     (if device_identifier = StrId ''all''
      then select_loop up device_list available
             (foldl (\<lambda>r avail. r @ [avail]) result available)
      else (let idx = to_index up device_identifier in
            if idx < 0 \<or> idx \<ge> int (length available)
            then Inl (IndexError (DeviceNotAvailable device_identifier))
            else select_loop up device_list available (result @ [available ! nat idx])))"

definition select_from_available :: "(string \<Rightarrow> string) \<Rightarrow> devices_arg
    \<Rightarrow> PhysicalDevice list \<Rightarrow> exn + PhysicalDevice list" where
  "select_from_available up devices available =
     select_loop up (case devices of Many l \<Rightarrow> l | One d \<Rightarrow> [d]) available []"

section \<open>Selection\<close>

text \<open>
  A method returns its result, or the exception it raised, together with the class
  attributes as they are at that moment: an assignment made before a raise stays.
\<close>

definition cpu :: "platform \<Rightarrow> devices_arg \<Rightarrow> world \<Rightarrow> (exn + unit) \<times> world" where
  "cpu env devices w =
     (let w1 = w\<lparr>cls_device := Some ''cpu''\<rparr>;
          available = list_physical_devices env ''CPU''
      in case select_from_available (str_upper env) devices available of
           Inl e \<Rightarrow> (Inl e, w1)
         | Inr r \<Rightarrow> (Inr (), w1\<lparr>cls_device_list := r, cls_strategy := None\<rparr>))"

definition gpu :: "platform \<Rightarrow> devices_arg \<Rightarrow> world \<Rightarrow> (exn + unit) \<times> world" where
  "gpu env devices w =
     (let w1 = w\<lparr>cls_device := Some ''gpu''\<rparr>;
          available = list_physical_devices env ''GPU''
      in case select_from_available (str_upper env) devices available of
           Inl e \<Rightarrow> (Inl e, w1)
         | Inr r \<Rightarrow> (Inr (), w1\<lparr>cls_device_list := r, cls_strategy := None\<rparr>))"

section \<open>Building the strategy\<close>

text \<open>
  The loop over the GPUs inside the \<^verbatim>\<open>try\<close>: every call is logged, and the first
  exception ends the loop.
\<close>

fun growth_loop :: "platform \<Rightarrow> PhysicalDevice list \<Rightarrow> world \<Rightarrow> (exn + unit) \<times> world" where
  "growth_loop env [] w = (Inr (), w)"
| "growth_loop env (g # gpu_list) w =
     (let w1 = w\<lparr>tf_log := tf_log w @ [SetMemoryGrowth g (cls_growth w)]\<rparr>
      in case set_memory_growth env g (cls_growth w) of
           Some e \<Rightarrow> (Inl e, w1)
         | None \<Rightarrow> growth_loop env gpu_list w1)"

text \<open>\<^verbatim>\<open>except RuntimeError: pass\<close> catches that exception and no other.\<close>

definition limit_growth :: "platform \<Rightarrow> world \<Rightarrow> (exn + unit) \<times> world" where
  "limit_growth env w =
     (case growth_loop env (list_physical_devices env ''GPU'') w of
        (Inl RuntimeError, w1) \<Rightarrow> (Inr (), w1)
      | r \<Rightarrow> r)"

text \<open>
  The constructors of the framework: the call is logged; it raises, and then no object
  exists, or it returns a new strategy object.
\<close>

definition tf_OneDeviceStrategy :: "platform \<Rightarrow> string \<Rightarrow> world \<Rightarrow> (exn + strategy) \<times> world" where
  "tf_OneDeviceStrategy env device w =
     (let w1 = w\<lparr>tf_log := tf_log w @ [NewOneDeviceStrategy device]\<rparr>
      in case one_device_strategy env device of
           Some e \<Rightarrow> (Inl e, w1)
         | None \<Rightarrow> (Inr (OneDeviceStrategy (tf_next w1) device), w1\<lparr>tf_next := Suc (tf_next w1)\<rparr>))"

definition tf_MirroredStrategy :: "platform \<Rightarrow> string list \<Rightarrow> world
    \<Rightarrow> (exn + strategy) \<times> world" where
  "tf_MirroredStrategy env devices w =
     (let w1 = w\<lparr>tf_log := tf_log w @ [NewMirroredStrategy devices]\<rparr>
      in case mirrored_strategy env devices of
           Some e \<Rightarrow> (Inl e, w1)
         | None \<Rightarrow> (Inr (MirroredStrategy (tf_next w1) devices), w1\<lparr>tf_next := Suc (tf_next w1)\<rparr>))"

text \<open>
  \<^verbatim>\<open>_build_strategy\<close>: the strategy is assigned to \<^verbatim>\<open>_strategy\<close> only when its
  constructor has returned.
\<close>

definition build_strategy :: "platform \<Rightarrow> world \<Rightarrow> (exn + unit) \<times> world" where
  "build_strategy env w =
     (case cls_strategy w of
        Some st \<Rightarrow> (Inr (), w)
      | None \<Rightarrow>
          (case (if cls_device w = Some ''gpu'' then limit_growth env w else (Inr (), w)) of
             (Inl e, w1) \<Rightarrow> (Inl e, w1)
           | (Inr u, w1) \<Rightarrow>
               (case short_names (cls_device_list w1) of
                  Inl e \<Rightarrow> (Inl e, w1)
                | Inr devices \<Rightarrow>
                    (case (if length devices \<ge> 2 then tf_MirroredStrategy env devices w1
                           else if length devices = 1
                                then tf_OneDeviceStrategy env (devices ! 0) w1
                                else tf_OneDeviceStrategy env ''/cpu:0'' w1) of
                       (Inl e, w2) \<Rightarrow> (Inl e, w2)
                     | (Inr st, w2) \<Rightarrow> (Inr (), w2\<lparr>cls_strategy := Some st\<rparr>)))))"

text \<open>
  \<^verbatim>\<open>strategy.scope()\<close>: a new scope object of the strategy, entered no time yet.
\<close>

definition tf_scope :: "strategy \<Rightarrow> world \<Rightarrow> (exn + strategy_scope) \<times> world" where
  "tf_scope st w =
     (let sc = StrategyScope (tf_next w) st
      in (Inr sc, w\<lparr>tf_next := Suc (tf_next w), tf_again := removeAll sc (tf_again w)\<rparr>))"

definition scope :: "platform \<Rightarrow> world \<Rightarrow> (exn + strategy_scope) \<times> world" where
  "scope env w =
     (case build_strategy env w of
        (Inl e, w1) \<Rightarrow> (Inl e, w1)
      | (Inr u, w1) \<Rightarrow>
          (case cls_strategy w1 of
             None \<Rightarrow> (Inl AttributeError, w1)
           | Some st \<Rightarrow> tf_scope st w1))"

definition strategy :: "platform \<Rightarrow> world \<Rightarrow> (exn + strategy option) \<times> world" where
  "strategy env w =
     (case build_strategy env w of
        (Inl e, w1) \<Rightarrow> (Inl e, w1)
      | (Inr u, w1) \<Rightarrow> (Inr (cls_strategy w1), w1))"

text \<open>\<^verbatim>\<open>num_replicas_in_sync\<close>: one replica for each device of the strategy.\<close>

fun num_replicas_in_sync :: "strategy \<Rightarrow> nat" where
  "num_replicas_in_sync (OneDeviceStrategy h d) = 1"
| "num_replicas_in_sync (MirroredStrategy h ds) = length ds"

definition replica :: "platform \<Rightarrow> world \<Rightarrow> (exn + nat) \<times> world" where
  "replica env w =
     (case strategy env w of
        (Inl e, w1) \<Rightarrow> (Inl e, w1)
      | (Inr None, w1) \<Rightarrow> (Inl AttributeError, w1)
      | (Inr (Some st), w1) \<Rightarrow> (Inr (num_replicas_in_sync st), w1))"

definition growth :: "world \<Rightarrow> bool" where
  "growth w = cls_growth w"


section \<open>The context manager\<close>

text \<open>
  The scopes of the framework. With no scope entered, entering a scope makes it the
  current one. With a scope of the same strategy current, the scope is entered again
  without becoming the current one, and the framework counts that for the scope object
  (\<open>tf_again\<close> holds the object once for each time). With a scope of another strategy
  current, entering is the framework's \<^verbatim>\<open>RuntimeError\<close>. Leaving a scope that was entered
  again takes one count from it; leaving the current scope ends it and returns what the
  framework decides from the exception information; leaving any other scope is an
  error of the framework, and every scope stays as it was.
\<close>

fun scope_strategy :: "strategy_scope \<Rightarrow> strategy" where
  "scope_strategy (StrategyScope h st) = st"

definition scope_enter :: "strategy_scope \<Rightarrow> world \<Rightarrow> (exn + strategy) \<times> world" where
  "scope_enter sc w =
     (case tf_entered w of
        [] \<Rightarrow> (Inr (scope_strategy sc), w\<lparr>tf_entered := [sc]\<rparr>)
      | current # rest \<Rightarrow>
          if scope_strategy current = scope_strategy sc
          then (Inr (scope_strategy sc), w\<lparr>tf_again := sc # tf_again w\<rparr>)
          else (Inl RuntimeError, w))"

definition scope_exit :: "platform \<Rightarrow> strategy_scope \<Rightarrow> exn option \<Rightarrow> world
    \<Rightarrow> (exn + bool option) \<times> world" where
  "scope_exit env sc exc w =
     (if sc \<in> set (tf_again w) then (Inr None, w\<lparr>tf_again := remove1 sc (tf_again w)\<rparr>)
      else (case tf_entered w of
              [] \<Rightarrow> (Inl (scope_exit_error env sc exc), w)
            | current # rest \<Rightarrow>
                if current = sc
                then (Inr (scope_exit_result env sc exc), w\<lparr>tf_entered := rest\<rparr>)
                else (Inl (scope_exit_error env sc exc), w)))"

text \<open>
  \<^verbatim>\<open>__enter__\<close> stores the scope in the class attribute, then enters it; \<^verbatim>\<open>__exit__\<close>
  leaves the scope that the class attribute holds at that moment.
\<close>

definition enter :: "platform \<Rightarrow> world \<Rightarrow> (exn + strategy) \<times> world" where
  "enter env w =
     (case scope env w of
        (Inl e, w1) \<Rightarrow> (Inl e, w1)
      | (Inr sc, w1) \<Rightarrow> scope_enter sc (w1\<lparr>cls_scope := Some sc\<rparr>))"

definition exit :: "platform \<Rightarrow> exn option \<Rightarrow> world \<Rightarrow> (exn + bool option) \<times> world" where
  "exit env exc w =
     (case cls_scope w of
        None \<Rightarrow> (Inl AttributeError, w)
      | Some sc \<Rightarrow> scope_exit env sc exc w)"

text \<open>
  \<^verbatim>\<open>with self as device: return foo(...)\<close>, as Python runs it: the body runs only if
  \<^verbatim>\<open>__enter__\<close> returned; \<^verbatim>\<open>__exit__\<close> is called with the exception of the body, or
  with none; an exception of the body is raised again unless \<^verbatim>\<open>__exit__\<close> returned
  a true value, in which case the statement ends and the wrapper returns \<^verbatim>\<open>None\<close>.
\<close>

definition with_self :: "platform \<Rightarrow> (world \<Rightarrow> (exn + 'a) \<times> world) \<Rightarrow> world
    \<Rightarrow> (exn + 'a option) \<times> world" where
  "with_self env foo w =
     (case enter env w of
        (Inl e, w1) \<Rightarrow> (Inl e, w1)
      | (Inr device, w1) \<Rightarrow>
          (case foo w1 of
             (Inr r, w2) \<Rightarrow>
               (case exit env None w2 of
                  (Inl e, w3) \<Rightarrow> (Inl e, w3)
                | (Inr b, w3) \<Rightarrow> (Inr (Some r), w3))
           | (Inl e, w2) \<Rightarrow>
               (case exit env (Some e) w2 of
                  (Inl e', w3) \<Rightarrow> (Inl e', w3)
                | (Inr b, w3) \<Rightarrow> if b = Some True then (Inr None, w3) else (Inl e, w3))))"

text \<open>
  The decorators: \<^verbatim>\<open>use_cpu\<close> selects all CPUs, and \<^verbatim>\<open>use_gpu0\<close> to \<^verbatim>\<open>use_gpu3\<close>, which
  differ only in the index they pass to \<^verbatim>\<open>gpu\<close>, are \<open>use_gpu 0\<close> to \<open>use_gpu 3\<close>; each
  then runs the wrapped function inside the \<^verbatim>\<open>with\<close> statement.
\<close>

definition use_cpu :: "platform \<Rightarrow> (world \<Rightarrow> (exn + 'a) \<times> world) \<Rightarrow> world
    \<Rightarrow> (exn + 'a option) \<times> world" where
  "use_cpu env foo w =
     (case cpu env (One (StrId ''all'')) w of
        (Inl e, w1) \<Rightarrow> (Inl e, w1)
      | (Inr u, w1) \<Rightarrow> with_self env foo w1)"

definition use_gpu :: "int \<Rightarrow> platform \<Rightarrow> (world \<Rightarrow> (exn + 'a) \<times> world) \<Rightarrow> world
    \<Rightarrow> (exn + 'a option) \<times> world" where
  "use_gpu n env foo w =
     (case gpu env (One (IntId n)) w of
        (Inl e, w1) \<Rightarrow> (Inl e, w1)
      | (Inr u, w1) \<Rightarrow> with_self env foo w1)"

section \<open>What a build does, described\<close>

text \<open>
  The devices a loop calls a fallible function \<open>f\<close> on, when the first exception ends
  the loop, and the exception that ends it.
\<close>

fun attempted :: "('a \<Rightarrow> exn option) \<Rightarrow> 'a list \<Rightarrow> 'a list" where
  "attempted f [] = []"
| "attempted f (g # gs) = g # (case f g of None \<Rightarrow> attempted f gs | Some e \<Rightarrow> [])"

fun raised :: "('a \<Rightarrow> exn option) \<Rightarrow> 'a list \<Rightarrow> exn option" where
  "raised f [] = None"
| "raised f (g # gs) = (case f g of None \<Rightarrow> raised f gs | Some e \<Rightarrow> Some e)"

text \<open>
  The GPUs on which the memory growth is set in a world, and the exception raised there;
  the calls the growth block of a build adds to the log, and the exception of the growth
  block that escapes the \<^verbatim>\<open>try\<close>.
\<close>

definition growth_attempted :: "platform \<Rightarrow> world \<Rightarrow> PhysicalDevice list" where
  "growth_attempted env w =
     attempted (\<lambda>d. set_memory_growth env d (cls_growth w)) (list_physical_devices env ''GPU'')"

definition growth_raised :: "platform \<Rightarrow> world \<Rightarrow> exn option" where
  "growth_raised env w =
     raised (\<lambda>d. set_memory_growth env d (cls_growth w)) (list_physical_devices env ''GPU'')"

definition growth_calls :: "platform \<Rightarrow> world \<Rightarrow> tf_call list" where
  "growth_calls env w =
     (if cls_device w = Some ''gpu''
      then map (\<lambda>d. SetMemoryGrowth d (cls_growth w)) (growth_attempted env w)
      else [])"

definition growth_failure :: "platform \<Rightarrow> world \<Rightarrow> exn option" where
  "growth_failure env w =
     (if cls_device w = Some ''gpu''
      then (case growth_raised env w of
              None \<Rightarrow> None
            | Some e \<Rightarrow> if e = RuntimeError then None else Some e)
      else None)"

text \<open>
  For a list of short names, by the number of names: the strategy, the call of the
  constructor, and the exception the constructor raises.
\<close>

definition strategy_for :: "nat \<Rightarrow> string list \<Rightarrow> strategy" where
  "strategy_for h names =
     (case names of
        [] \<Rightarrow> OneDeviceStrategy h ''/cpu:0''
      | [n] \<Rightarrow> OneDeviceStrategy h n
      | _ \<Rightarrow> MirroredStrategy h names)"

definition construct_call :: "string list \<Rightarrow> tf_call" where
  "construct_call names =
     (case names of
        [] \<Rightarrow> NewOneDeviceStrategy ''/cpu:0''
      | [n] \<Rightarrow> NewOneDeviceStrategy n
      | _ \<Rightarrow> NewMirroredStrategy names)"

definition construct_error :: "platform \<Rightarrow> string list \<Rightarrow> exn option" where
  "construct_error env names =
     (case names of
        [] \<Rightarrow> one_device_strategy env ''/cpu:0''
      | [n] \<Rightarrow> one_device_strategy env n
      | _ \<Rightarrow> mirrored_strategy env names)"

section \<open>The cached strategy and the selection\<close>






section \<open>Hosts used in the examples\<close>

definition gpu_device :: "nat \<Rightarrow> PhysicalDevice" where
  "gpu_device n = \<lparr>name = ''/physical_device:GPU:'' @ [char_of (48 + n)], device_type = ''GPU''\<rparr>"

definition cpu_device :: PhysicalDevice where
  "cpu_device = \<lparr>name = ''/physical_device:CPU:0'', device_type = ''CPU''\<rparr>"

text \<open>
  A host with one CPU and two GPUs. What setting the memory growth of a GPU does is the
  argument: nothing, or an exception. The mirrored strategy refuses a device that is
  named twice, as the framework does, with an \<^verbatim>\<open>AssertionError\<close>; leaving a scope that
  is not the current one is a \<^verbatim>\<open>RuntimeError\<close>. The identifiers of the
  examples are ASCII strings, on which \<^verbatim>\<open>str.upper\<close> is \<open>upper\<close>.
\<close>

definition two_gpu_host :: "exn option \<Rightarrow> platform" where
  "two_gpu_host growth_outcome =
     \<lparr>str_upper = upper,
      list_physical_devices =
        (\<lambda>kind. if kind = ''CPU'' then [cpu_device]
                 else if kind = ''GPU'' then [gpu_device 0, gpu_device 1] else []),
      set_memory_growth = (\<lambda>d g. growth_outcome),
      one_device_strategy = (\<lambda>device. None),
      mirrored_strategy = (\<lambda>devices. if distinct devices then None else Some AssertionError),
      scope_exit_result = (\<lambda>sc exc. None),
      scope_exit_error = (\<lambda>sc exc. RuntimeError)\<rparr>"

section \<open>Characters and strings\<close>

lemma of_char_less_256: "(of_char c :: nat) < 256"
proof -
  have "(of_char c :: nat) mod 256 = of_char c" by (rule of_char_mod_256)
  moreover have "(of_char c :: nat) mod 256 < 256" by simp
  ultimately show ?thesis by simp
qed

lemma of_char_upper_char:
  "(of_char (upper_char c) :: nat) =
     (if 97 \<le> (of_char c :: nat) \<and> (of_char c :: nat) \<le> 122 then of_char c - 32 else of_char c)"
proof -
  have "(of_char c :: nat) - 32 < 256" using of_char_less_256 [of c] by arith
  then show ?thesis by (simp add: upper_char_def Let_def)
qed

lemma of_char_lower_char:
  "(of_char (lower_char c) :: nat) =
     (if 65 \<le> (of_char c :: nat) \<and> (of_char c :: nat) \<le> 90 then of_char c + 32 else of_char c)"
proof -
  have "(of_char c :: nat) \<le> 90 \<Longrightarrow> (of_char c :: nat) + 32 < 256" by arith
  then show ?thesis by (simp add: lower_char_def Let_def)
qed

text \<open>Folding to upper case identifies the same characters as folding to lower case.\<close>

lemma fold_case_arith:
  fixes m n :: nat
  shows "((if 97 \<le> m \<and> m \<le> 122 then m - 32 else m) = (if 97 \<le> n \<and> n \<le> 122 then n - 32 else n))
      \<longleftrightarrow> ((if 65 \<le> m \<and> m \<le> 90 then m + 32 else m) = (if 65 \<le> n \<and> n \<le> 90 then n + 32 else n))"
  by (auto split: if_splits)

lemma upper_lower_char: "upper_char a = upper_char b \<longleftrightarrow> lower_char a = lower_char b"
proof -
  have "upper_char a = upper_char b \<longleftrightarrow> (of_char (upper_char a) :: nat) = of_char (upper_char b)"
    by simp
  also have "\<dots> \<longleftrightarrow> (of_char (lower_char a) :: nat) = of_char (lower_char b)"
    unfolding of_char_upper_char of_char_lower_char by (rule fold_case_arith)
  also have "\<dots> \<longleftrightarrow> lower_char a = lower_char b"
    by simp
  finally show ?thesis .
qed

lemma upper_lower: "upper s = upper t \<longleftrightarrow> lower s = lower t"
  unfolding upper_def lower_def
proof (induction s arbitrary: t)
  case Nil
  show ?case by simp
next
  case (Cons c s)
  show ?case
  proof (cases t)
    case Nil
    then show ?thesis by simp
  next
    case (Cons d t')
    with Cons.IH [of t'] show ?thesis by (simp add: upper_lower_char)
  qed
qed

lemma split_on_no_sep: "sep \<notin> set b \<Longrightarrow> split_on sep b = [b]"
  by (induction b) (auto simp add: Let_def)

lemma split_on_nonempty: "split_on sep s \<noteq> []"
  by (induction s) (simp_all add: Let_def)

lemma split_on_append: "split_on sep (x @ sep # y) = split_on sep x @ split_on sep y"
  by (induction x) (simp_all add: Let_def split_on_nonempty)

section \<open>Selection from the available devices\<close>

lemma foldl_append_each: "foldl (\<lambda>r avail. r @ [avail]) result available = result @ available"
  by (induction available arbitrary: result) simp_all

lemma select_loop_acc:
  "select_loop up ids available result =
     (case select_loop up ids available [] of Inl e \<Rightarrow> Inl e | Inr r \<Rightarrow> Inr (result @ r))"
proof (induction ids arbitrary: result)
  case Nil
  show ?case by simp
next
  case (Cons d ds)
  show ?case
    using Cons.IH [of "result @ available"] Cons.IH [of available]
      Cons.IH [of "result @ [available ! nat (to_index up d)]"]
      Cons.IH [of "[available ! nat (to_index up d)]"]
    by (simp add: foldl_append_each Let_def split: sum.splits)
qed

lemma select_loop_append:
  "select_loop up (xs @ ys) available result =
     (case select_loop up xs available result of
        Inl e \<Rightarrow> Inl e
      | Inr r \<Rightarrow> select_loop up ys available r)"
  by (induction xs arbitrary: result) (simp_all add: Let_def)

lemma select_loop_valid:
  "\<forall>d \<in> set ids. d \<noteq> StrId ''all'' \<and> 0 \<le> to_index up d \<and> to_index up d < int (length available)
   \<Longrightarrow> select_loop up ids available result
       = Inr (result @ map (\<lambda>d. available ! nat (to_index up d)) ids)"
  by (induction ids arbitrary: result) (simp_all add: Let_def)

lemma select_loop_invalid:
  "d \<in> set ids \<Longrightarrow> d \<noteq> StrId ''all'' \<Longrightarrow> to_index up d < 0 \<or> int (length available) \<le> to_index up d
   \<Longrightarrow> \<exists>d'. select_loop up ids available result = Inl (IndexError (DeviceNotAvailable d'))"
  by (induction ids arbitrary: result) (auto simp add: Let_def)

text \<open>
  C6: selecting with the identifier \<^verbatim>\<open>'all'\<close>, alone or as the only element of a list,
  gives the whole list the framework reported for the device type, in its order;
  \<^verbatim>\<open>cpu\<close> and \<^verbatim>\<open>gpu\<close> install exactly that list.
\<close>

theorem select_all:
  "select_from_available up (One (StrId ''all'')) available = Inr available
   \<and> select_from_available up (Many [StrId ''all'']) available = Inr available
   \<and> cpu env (One (StrId ''all'')) w
       = (Inr (), w\<lparr>cls_device := Some ''cpu'',
                    cls_device_list := list_physical_devices env ''CPU'', cls_strategy := None\<rparr>)
   \<and> gpu env (One (StrId ''all'')) w
       = (Inr (), w\<lparr>cls_device := Some ''gpu'',
                    cls_device_list := list_physical_devices env ''GPU'', cls_strategy := None\<rparr>)"
  by (simp add: select_from_available_def foldl_append_each cpu_def gpu_def)

text \<open>
  C5: when every identifier of the list is valid (not \<^verbatim>\<open>'all'\<close>, and resolving to an
  index inside the available devices), the selection succeeds, has as many devices as
  there are identifiers, and its \<open>k\<close>-th device is the one the \<open>k\<close>-th identifier names;
  \<^verbatim>\<open>cpu\<close> and \<^verbatim>\<open>gpu\<close> install that list.
\<close>

theorem select_valid_in_order:
  assumes "\<forall>d \<in> set ids. d \<noteq> StrId ''all'' \<and> 0 \<le> to_index up d \<and> to_index up d < int (length available)"
  shows "(\<exists>r. select_from_available up (Many ids) available = Inr r
              \<and> length r = length ids
              \<and> r = map (\<lambda>d. available ! nat (to_index up d)) ids)
         \<and> (list_physical_devices env ''CPU'' = available \<and> str_upper env = up \<longrightarrow>
              cpu env (Many ids) w
                = (Inr (), w\<lparr>cls_device := Some ''cpu'',
                     cls_device_list := map (\<lambda>d. available ! nat (to_index up d)) ids,
                     cls_strategy := None\<rparr>))
         \<and> (list_physical_devices env ''GPU'' = available \<and> str_upper env = up \<longrightarrow>
              gpu env (Many ids) w
                = (Inr (), w\<lparr>cls_device := Some ''gpu'',
                     cls_device_list := map (\<lambda>d. available ! nat (to_index up d)) ids,
                     cls_strategy := None\<rparr>))"
proof -
  have sel: "select_from_available up (Many ids) available
      = Inr (map (\<lambda>d. available ! nat (to_index up d)) ids)"
    using select_loop_valid [OF assms, of "[]"] by (simp add: select_from_available_def)
  then show ?thesis
    by (auto simp add: cpu_def gpu_def)
qed

theorem select_valid_in_order_witness:
  "0 \<le> to_index upper (IntId 1)
   \<and> to_index upper (IntId 1) < int (length [gpu_device 0, gpu_device 1])
   \<and> 0 \<le> to_index upper (StrId ''first'')
   \<and> to_index upper (StrId ''first'') < int (length [gpu_device 0, gpu_device 1])
   \<and> select_from_available upper (Many [IntId 1, StrId ''first'']) [gpu_device 0, gpu_device 1]
       = Inr [gpu_device 1, gpu_device 0]
   \<and> gpu (two_gpu_host None) (Many [IntId 1, StrId ''first'']) initial
       = (Inr (), initial\<lparr>cls_device := Some ''gpu'',
                    cls_device_list := [gpu_device 1, gpu_device 0], cls_strategy := None\<rparr>)"
proof -
  have h: "\<forall>d \<in> set [IntId 1, StrId ''first''].
      d \<noteq> StrId ''all'' \<and> 0 \<le> to_index upper d
        \<and> to_index upper d < int (length [gpu_device 0, gpu_device 1])"
    by (simp add: upper_def upper_char_def char_of_eq_iff)
  have i: "to_index upper (StrId ''first'') = 0"
    by (simp add: upper_def upper_char_def char_of_eq_iff)
  show ?thesis
    using h i select_valid_in_order [OF h, of "two_gpu_host None" initial]
    by (simp add: two_gpu_host_def)
qed

text \<open>
  C10: every occurrence of \<^verbatim>\<open>'all'\<close> in a list puts the whole list of available devices
  at its place: the selection for \<open>xs @ ['all'] @ ys\<close> is the selection for \<open>xs\<close>, then
  all devices, then the selection for \<open>ys\<close>. So \<^verbatim>\<open>['all', 'all']\<close> selects every device
  twice and \<^verbatim>\<open>[0, 'all']\<close> selects the first device twice, without an error; such a
  selection is not duplicate-free.
\<close>

theorem select_all_per_occurrence:
  "select_from_available up (Many (xs @ StrId ''all'' # ys)) available
     = (case select_from_available up (Many xs) available of
          Inl e \<Rightarrow> Inl e
        | Inr rx \<Rightarrow>
            (case select_from_available up (Many ys) available of
               Inl e \<Rightarrow> Inl e
             | Inr ry \<Rightarrow> Inr (rx @ available @ ry)))
   \<and> select_from_available up (Many [StrId ''all'', StrId ''all'']) available
       = Inr (available @ available)
   \<and> select_from_available up (Many [IntId 0, StrId ''all'']) (a # rest) = Inr (a # a # rest)
   \<and> \<not> distinct (a # rest @ a # rest)"
proof -
  have "select_loop up (xs @ StrId ''all'' # ys) available []
     = (case select_loop up xs available [] of
          Inl e \<Rightarrow> Inl e
        | Inr rx \<Rightarrow>
            (case select_loop up ys available [] of
               Inl e \<Rightarrow> Inl e
             | Inr ry \<Rightarrow> Inr (rx @ available @ ry)))"
  proof (cases "select_loop up xs available []")
    case (Inl e)
    then show ?thesis by (simp add: select_loop_append)
  next
    case (Inr rx)
    then show ?thesis
      using select_loop_acc [of up ys available "rx @ available"]
      by (simp add: select_loop_append foldl_append_each split: sum.splits)
  qed
  then show ?thesis
    by (simp add: select_from_available_def foldl_append_each split: sum.splits)
qed

section \<open>Short names\<close>

lemma getitem_last_two:
  "getitem (xs @ [a, b]) (- 2) = Inr a" "getitem (xs @ [a, b]) (- 1) = Inr b"
proof -
  have "nat (int (length xs)) = length xs" by simp
  then show "getitem (xs @ [a, b]) (- 2) = Inr a"
    by (simp add: getitem_def Let_def nth_append)
  have "nat (1 + int (length xs)) = Suc (length xs)" by simp
  then show "getitem (xs @ [a, b]) (- 1) = Inr b"
    by (simp add: getitem_def Let_def nth_append)
qed

lemma short_names_loop_append:
  "short_names_loop (xs @ ys) result =
     (case short_names_loop xs result of
        Inl e \<Rightarrow> Inl e
      | Inr r \<Rightarrow> short_names_loop ys r)"
  by (induction xs arbitrary: result) (simp_all add: Let_def split: sum.splits)

lemma split_on_last_two:
  assumes "sep \<notin> set a" and "sep \<notin> set b" and "p = [] \<or> last p = sep"
  shows "\<exists>xs. split_on sep (p @ a @ sep # b) = xs @ [a, b]"
proof (cases "p = []")
  case True
  then show ?thesis
    using assms split_on_append [of sep a b] by (simp add: split_on_no_sep)
next
  case False
  with assms(3) obtain q where p: "p = q @ [sep]"
    by (metis append_butlast_last_id)
  have "split_on sep (p @ a @ sep # b) = split_on sep q @ split_on sep (a @ sep # b)"
    using split_on_append [of sep q "a @ sep # b"] by (simp add: p)
  also have "\<dots> = split_on sep q @ [a, b]"
    using assms by (simp add: split_on_append split_on_no_sep)
  finally show ?thesis by blast
qed

text \<open>
  C7: for a device whose name ends in \<open>a:b\<close>, with no colon in \<open>a\<close> or \<open>b\<close> and \<open>a\<close>
  starting the name or following a colon, the short name appended for it is
  \<open>/\<close>, the lower-cased \<open>a\<close>, a colon, and \<open>b\<close>. In particular every name ending in
  \<^verbatim>\<open>/device:GPU:2\<close> gives \<^verbatim>\<open>/gpu:2\<close>.
\<close>

theorem short_names_format:
  "(name d = p @ a @ CHR '':'' # b \<and> CHR '':'' \<notin> set a \<and> CHR '':'' \<notin> set b
      \<and> (p = [] \<or> last p = CHR '':'') \<and> short_names ds = Inr r
     \<longrightarrow> short_names (ds @ [d]) = Inr (r @ [''/'' @ lower a @ '':'' @ b]))
   \<and> short_names [\<lparr>name = prefix @ ''/device:GPU:2'', device_type = t\<rparr>] = Inr [''/gpu:2'']"
proof -
  have general: "short_names (ds @ [d]) = Inr (r @ [''/'' @ lower a @ '':'' @ b])"
    if nm: "name d = p @ a @ CHR '':'' # b" and na: "CHR '':'' \<notin> set a"
      and nb: "CHR '':'' \<notin> set b"
      and pre: "p = [] \<or> last p = CHR '':''" and ds: "short_names ds = Inr r"
    for d :: PhysicalDevice and p a b ds r
  proof -
    obtain xs where "split_on CHR '':'' (name d) = xs @ [a, b]"
      using split_on_last_two [OF na nb pre] nm by auto
    then show ?thesis
      using ds
      by (simp add: short_names_def short_names_loop_append getitem_last_two)
  qed
  have "short_names ([] @ [\<lparr>name = prefix @ ''/device:GPU:2'', device_type = t\<rparr>])
      = Inr ([] @ [''/'' @ lower ''GPU'' @ '':'' @ ''2''])"
    by (rule general [where p = "prefix @ ''/device:''"]) (simp_all add: short_names_def)
  then have "short_names [\<lparr>name = prefix @ ''/device:GPU:2'', device_type = t\<rparr>] = Inr [''/gpu:2'']"
    by (simp add: lower_def lower_char_def char_of_eq_iff)
  with general show ?thesis by blast
qed

theorem short_names_format_witness:
  "short_names ([gpu_device 0] @ [gpu_device 1]) = Inr ([''/gpu:0''] @ [''/gpu:1''])"
proof -
  have "short_names [gpu_device 0] = Inr [''/gpu:0'']" by code_simp
  then show ?thesis
  using short_names_format [of "gpu_device 1" "''/physical_device:''" "''GPU''" "''1''" "[gpu_device 0]" "[''/gpu:0'']"]
  by (simp add: gpu_device_def lower_def lower_char_def char_of_eq_iff)
qed

section \<open>Resolution of identifiers and failed selection\<close>

text \<open>
  Where \<^verbatim>\<open>str.upper\<close> folds the ASCII letters of a string and nothing else, a string has
  a given upper-case form exactly when it has the lower-case form of the same word.
\<close>

lemma upper_eq_iff_lower_eq:
  assumes "upper l = k" and "lower l = l"
  shows "upper s = k \<longleftrightarrow> lower s = l"
  using upper_lower [of s l] assms by simp

lemma table_keys_ascii:
  "upper s = ''FIRST'' \<longleftrightarrow> lower s = ''first''"
  "upper s = ''SECOND'' \<longleftrightarrow> lower s = ''second''"
  "upper s = ''THIRD'' \<longleftrightarrow> lower s = ''third''"
  "upper s = ''FOURTH'' \<longleftrightarrow> lower s = ''fourth''"
  by (rule upper_eq_iff_lower_eq;
      simp add: upper_def lower_def upper_char_def lower_char_def char_of_eq_iff)+

lemma to_index_table:
  "to_index up (StrId s) =
     (if up s = ''FIRST'' then 0 else if up s = ''SECOND'' then 1
      else if up s = ''THIRD'' then 2 else if up s = ''FOURTH'' then 3 else - 1)"
  by simp

text \<open>
  An identifier outside ASCII: the bytes of the long s (U+017F) followed by \<open>econd\<close>.
  Where \<^verbatim>\<open>str.upper\<close> gives \<open>SECOND\<close> for it, as Python does, it names index 1.
\<close>

lemma to_index_long_s:
  "up ([CHR 0xC5, CHR 0xBF] @ ''econd'') = ''SECOND''
   \<Longrightarrow> to_index up (StrId ([CHR 0xC5, CHR 0xBF] @ ''econd'')) = 1"
  by simp

text \<open>
  C2: an integer identifier is its own index. A string is looked up in the table
  FIRST, SECOND, THIRD, FOURTH (indices 0 to 3) after \<^verbatim>\<open>str.upper\<close>, so without regard
  to case, and any other string gives \<open>-1\<close>; for a string on which \<^verbatim>\<open>str.upper\<close> folds
  the ASCII letters only, these are the strings whose lower-case form is first, second,
  third or fourth. A single identifier is treated as a list of one. If some identifier of
  the list other than \<^verbatim>\<open>'all'\<close> resolves to a negative index or to one beyond the
  available devices, the selection raises the index error, and \<^verbatim>\<open>cpu\<close> and \<^verbatim>\<open>gpu\<close>
  raise it with no change to the class attributes other than the device type: no part of
  the selection is installed.
\<close>

theorem select_resolution:
  "to_index up (IntId i) = i
   \<and> to_index up (StrId s) =
       (if up s = ''FIRST'' then 0 else if up s = ''SECOND'' then 1
        else if up s = ''THIRD'' then 2 else if up s = ''FOURTH'' then 3 else - 1)
   \<and> (up s = upper s \<longrightarrow>
        to_index up (StrId s) =
          (if lower s = ''first'' then 0 else if lower s = ''second'' then 1
           else if lower s = ''third'' then 2 else if lower s = ''fourth'' then 3 else - 1))
   \<and> select_from_available up (One d) available = select_from_available up (Many [d]) available
   \<and> (d \<in> set ids \<and> d \<noteq> StrId ''all''
        \<and> (to_index (str_upper env) d < 0
             \<or> int (length (list_physical_devices env kind)) \<le> to_index (str_upper env) d)
      \<longrightarrow> (\<exists>d'. select_from_available (str_upper env) (Many ids) (list_physical_devices env kind)
                  = Inl (IndexError (DeviceNotAvailable d'))
             \<and> (kind = ''CPU'' \<longrightarrow> cpu env (Many ids) w
                  = (Inl (IndexError (DeviceNotAvailable d')), w\<lparr>cls_device := Some ''cpu''\<rparr>))
             \<and> (kind = ''GPU'' \<longrightarrow> gpu env (Many ids) w
                  = (Inl (IndexError (DeviceNotAvailable d')), w\<lparr>cls_device := Some ''gpu''\<rparr>))))"
proof -
  have ascii: "to_index up (StrId s) =
          (if lower s = ''first'' then 0 else if lower s = ''second'' then 1
           else if lower s = ''third'' then 2 else if lower s = ''fourth'' then 3 else - 1)"
    if "up s = upper s"
    unfolding to_index_table that table_keys_ascii by (rule refl)
  have fails: "\<exists>d'. select_from_available (str_upper env) (Many ids) (list_physical_devices env kind)
                  = Inl (IndexError (DeviceNotAvailable d'))
             \<and> (kind = ''CPU'' \<longrightarrow> cpu env (Many ids) w
                  = (Inl (IndexError (DeviceNotAvailable d')), w\<lparr>cls_device := Some ''cpu''\<rparr>))
             \<and> (kind = ''GPU'' \<longrightarrow> gpu env (Many ids) w
                  = (Inl (IndexError (DeviceNotAvailable d')), w\<lparr>cls_device := Some ''gpu''\<rparr>))"
    if bad: "d \<in> set ids" "d \<noteq> StrId ''all''"
      "to_index (str_upper env) d < 0
         \<or> int (length (list_physical_devices env kind)) \<le> to_index (str_upper env) d"
  proof -
    obtain d' where "select_loop (str_upper env) ids (list_physical_devices env kind) []
        = Inl (IndexError (DeviceNotAvailable d'))"
      using select_loop_invalid [OF bad] by blast
    then show ?thesis
      by (auto simp add: select_from_available_def cpu_def gpu_def)
  qed
  have one: "select_from_available up (One d) available
      = select_from_available up (Many [d]) available"
    by (simp add: select_from_available_def)
  from ascii fails one to_index_table [of up s] show ?thesis
    by (intro conjI impI) (simp_all del: to_index.simps, simp)
qed

theorem select_resolution_witness:
  "str_upper (two_gpu_host None) ''Second'' = upper ''Second''
   \<and> to_index (str_upper (two_gpu_host None)) (StrId ''Second'') = 1
   \<and> StrId ''fifth'' \<in> set [IntId 0, StrId ''fifth'']
   \<and> to_index (str_upper (two_gpu_host None)) (StrId ''fifth'') < 0
   \<and> gpu (two_gpu_host None) (Many [IntId 0, StrId ''fifth''])
         (initial\<lparr>cls_device_list := [cpu_device]\<rparr>)
       = (Inl (IndexError (DeviceNotAvailable (StrId ''fifth''))),
          initial\<lparr>cls_device_list := [cpu_device], cls_device := Some ''gpu''\<rparr>)"
proof -
  have u: "str_upper (two_gpu_host None) = upper" by (simp add: two_gpu_host_def)
  have l: "lower ''Second'' = ''second''"
    by (simp add: lower_def lower_char_def char_of_eq_iff)
  have us: "upper ''Second'' = ''SECOND''"
    by (simp add: upper_def upper_char_def char_of_eq_iff)
  have i: "to_index upper (StrId ''fifth'') = - 1"
    by (simp add: upper_def upper_char_def char_of_eq_iff)
  have g: "gpu (two_gpu_host None) (Many [IntId 0, StrId ''fifth''])
         (initial\<lparr>cls_device_list := [cpu_device]\<rparr>)
       = (Inl (IndexError (DeviceNotAvailable (StrId ''fifth''))),
          initial\<lparr>cls_device_list := [cpu_device], cls_device := Some ''gpu''\<rparr>)"
    using i by (simp add: gpu_def select_from_available_def two_gpu_host_def Let_def)
  show ?thesis
    using u l us i g select_resolution [where up = upper and s = "''Second''"
        and d = "StrId ''fifth''"
        and ids = "[IntId 0, StrId ''fifth'']" and env = "two_gpu_host None" and kind = "''GPU''"
        and w = "initial\<lparr>cls_device_list := [cpu_device]\<rparr>"]
    by (simp del: to_index.simps)
qed

section \<open>Building the strategy: what it computes\<close>

lemma raised_None_attempted: "raised f gs = None \<Longrightarrow> attempted f gs = gs"
  by (induction gs) (auto split: option.splits)

lemma growth_loop_eq:
  "growth_loop env gs w =
     (case raised (\<lambda>d. set_memory_growth env d (cls_growth w)) gs of
        None \<Rightarrow> Inr ()
      | Some e \<Rightarrow> Inl e,
      w\<lparr>tf_log := tf_log w
           @ map (\<lambda>d. SetMemoryGrowth d (cls_growth w))
               (attempted (\<lambda>d. set_memory_growth env d (cls_growth w)) gs)\<rparr>)"
  by (induction gs arbitrary: w) (simp_all add: Let_def split: option.splits)

lemma limit_growth_eq:
  "cls_device w = Some ''gpu'' \<Longrightarrow>
   limit_growth env w =
     (case growth_failure env w of None \<Rightarrow> Inr () | Some e \<Rightarrow> Inl e,
      w\<lparr>tf_log := tf_log w @ growth_calls env w\<rparr>)"
  by (simp add: limit_growth_def growth_loop_eq growth_failure_def growth_calls_def
      growth_attempted_def growth_raised_def split: option.splits exn.splits)

lemma construct_eq:
  "(if length devices \<ge> 2 then tf_MirroredStrategy env devices w
    else if length devices = 1 then tf_OneDeviceStrategy env (devices ! 0) w
    else tf_OneDeviceStrategy env ''/cpu:0'' w)
   = (case construct_error env devices of
        Some e \<Rightarrow> (Inl e, w\<lparr>tf_log := tf_log w @ [construct_call devices]\<rparr>)
      | None \<Rightarrow>
          (Inr (strategy_for (tf_next w) devices),
           w\<lparr>tf_log := tf_log w @ [construct_call devices], tf_next := Suc (tf_next w)\<rparr>))"
  by (cases devices; cases "tl devices")
    (auto simp add: tf_MirroredStrategy_def tf_OneDeviceStrategy_def construct_error_def
      construct_call_def strategy_for_def Let_def split: option.splits)

lemma build_strategy_None:
  assumes "cls_strategy w = None"
  shows "build_strategy env w =
     (case growth_failure env w of
        Some e \<Rightarrow> (Inl e, w\<lparr>tf_log := tf_log w @ growth_calls env w\<rparr>)
      | None \<Rightarrow>
          (case short_names (cls_device_list w) of
             Inl e \<Rightarrow> (Inl e, w\<lparr>tf_log := tf_log w @ growth_calls env w\<rparr>)
           | Inr names \<Rightarrow>
               (case construct_error env names of
                  Some e \<Rightarrow>
                    (Inl e,
                     w\<lparr>tf_log := tf_log w @ growth_calls env w @ [construct_call names]\<rparr>)
                | None \<Rightarrow>
                    (Inr (),
                     w\<lparr>tf_log := tf_log w @ growth_calls env w @ [construct_call names],
                       cls_strategy := Some (strategy_for (tf_next w) names),
                       tf_next := Suc (tf_next w)\<rparr>))))"
proof (cases "cls_device w = Some ''gpu''")
  case True
  show ?thesis
    using assms True
    by (simp add: build_strategy_def limit_growth_eq construct_eq
        split: option.splits sum.splits)
next
  case False
  show ?thesis
    using assms False
    by (simp add: build_strategy_def growth_failure_def growth_calls_def construct_eq
        split: option.splits sum.splits)
qed

lemma build_strategy_Some:
  "cls_strategy w = Some st \<Longrightarrow> build_strategy env w = (Inr (), w)"
  by (simp add: build_strategy_def)

lemma short_names_loop_acc:
  "short_names_loop ds (r1 @ r2) =
     (case short_names_loop ds r2 of Inl e \<Rightarrow> Inl e | Inr r \<Rightarrow> Inr (r1 @ r))"
proof (induction ds arbitrary: r2)
  case Nil
  show ?case by simp
next
  case (Cons d ds)
  have step: "short_names_loop ds (r1 @ r2 @ [x]) =
     (case short_names_loop ds (r2 @ [x]) of Inl e \<Rightarrow> Inl e | Inr r \<Rightarrow> Inr (r1 @ r))" for x
    by (rule Cons.IH)
  show ?case
  proof (cases "getitem (split_on CHR '':'' (name d)) (- 2)")
    case (Inl e)
    then show ?thesis by simp
  next
    case p2: (Inr p2)
    show ?thesis
    proof (cases "getitem (split_on CHR '':'' (name d)) (- 1)")
      case (Inl e)
      with p2 show ?thesis by simp
    next
      case (Inr p1)
      with p2 step show ?thesis by simp
    qed
  qed
qed

lemma short_names_Cons:
  "short_names (d # ds) =
     (case short_names [d] of
        Inl e \<Rightarrow> Inl e
      | Inr r1 \<Rightarrow> (case short_names ds of Inl e \<Rightarrow> Inl e | Inr r \<Rightarrow> Inr (r1 @ r)))"
proof (cases "short_names_loop [d] []")
  case (Inl e)
  then show ?thesis
    using short_names_loop_append [of "[d]" ds "[]"] by (simp add: short_names_def)
next
  case (Inr r1)
  then show ?thesis
    using short_names_loop_append [of "[d]" ds "[]"] short_names_loop_acc [of ds r1 "[]"]
    by (simp add: short_names_def)
qed

lemma short_names_single: "short_names [d] = Inr r \<Longrightarrow> \<exists>n. r = [n]"
  by (cases "getitem (split_on CHR '':'' (name d)) (- 2)";
      cases "getitem (split_on CHR '':'' (name d)) (- 1)")
    (auto simp add: short_names_def)

lemma short_names_pointwise:
  "short_names ds = Inr names \<longleftrightarrow> list_all2 (\<lambda>d n. short_names [d] = Inr [n]) ds names"
proof (induction ds arbitrary: names)
  case Nil
  show ?case by (auto simp add: short_names_def)
next
  case (Cons d ds)
  show ?case
  proof
    assume a: "short_names (d # ds) = Inr names"
    then obtain r1 r where r1: "short_names [d] = Inr r1" and r: "short_names ds = Inr r"
      and names: "names = r1 @ r"
      using short_names_Cons [of d ds] by (auto split: sum.splits)
    from r1 obtain n where "r1 = [n]" using short_names_single by blast
    with r1 r names Cons.IH [of r] show "list_all2 (\<lambda>d n. short_names [d] = Inr [n]) (d # ds) names"
      by simp
  next
    assume "list_all2 (\<lambda>d n. short_names [d] = Inr [n]) (d # ds) names"
    then obtain n r where "names = n # r" and "short_names [d] = Inr [n]"
      and "list_all2 (\<lambda>d n. short_names [d] = Inr [n]) ds r"
      by (auto simp add: list_all2_Cons1)
    with Cons.IH [of r] show "short_names (d # ds) = Inr names"
      using short_names_Cons [of d ds] by simp
  qed
qed

lemma length_split_on: "sep \<in> set s \<Longrightarrow> 2 \<le> length (split_on sep s)"
proof (induction s)
  case Nil
  then show ?case by simp
next
  case (Cons c cs)
  show ?case
  proof (cases "c = sep")
    case True
    then show ?thesis
      using split_on_nonempty [of sep cs] by (cases "split_on sep cs") simp_all
  next
    case False
    with Cons show ?thesis
      by (cases "split_on sep cs") (simp_all add: Let_def)
  qed
qed

lemma short_names_colon:
  assumes "CHR '':'' \<in> set (name d)"
  shows "\<exists>n. short_names [d] = Inr [n]"
proof -
  have "2 \<le> length (split_on CHR '':'' (name d))"
    using assms by (rule length_split_on)
  then have "getitem (split_on CHR '':'' (name d)) (- 2)
        = Inr (split_on CHR '':'' (name d) ! (length (split_on CHR '':'' (name d)) - 2))"
    and "getitem (split_on CHR '':'' (name d)) (- 1)
        = Inr (split_on CHR '':'' (name d) ! (length (split_on CHR '':'' (name d)) - 1))"
    by (auto simp add: getitem_def Let_def nat_diff_distrib' intro: arg_cong)
  then show ?thesis
    by (simp add: short_names_def Let_def)
qed

lemma short_names_total:
  "\<forall>d \<in> set ds. CHR '':'' \<in> set (name d) \<Longrightarrow> \<exists>names. short_names ds = Inr names"
proof (induction ds)
  case Nil
  show ?case by (simp add: short_names_def)
next
  case (Cons d ds)
  then obtain names where "short_names ds = Inr names" by auto
  moreover obtain n where "short_names [d] = Inr [n]"
    using short_names_colon [of d] Cons.prems by auto
  ultimately show ?case using short_names_Cons [of d ds] by simp
qed

section \<open>The example host\<close>

lemma short_names_gpu_device_0: "short_names [gpu_device 0] = Inr [''/gpu:0'']"
  by code_simp

lemma short_names_gpu_device_1: "short_names [gpu_device 1] = Inr [''/gpu:1'']"
  by code_simp

lemma short_names_gpu_devices:
  "short_names [gpu_device 0, gpu_device 1] = Inr [''/gpu:0'', ''/gpu:1'']"
  by code_simp

lemma short_names_gpu_device_Suc_0: "short_names [gpu_device (Suc 0)] = Inr [''/gpu:1'']"
  using short_names_gpu_device_1 by simp

lemma short_names_gpu_devices_Suc_0:
  "short_names [gpu_device 0, gpu_device (Suc 0)] = Inr [''/gpu:0'', ''/gpu:1'']"
  using short_names_gpu_devices by simp

lemma short_names_cpu_device: "short_names [cpu_device] = Inr [''/cpu:0'']"
  by code_simp

lemma colon_in_example_names:
  "CHR '':'' \<in> set (name (gpu_device n))" "CHR '':'' \<in> set (name cpu_device)"
  by (simp_all add: gpu_device_def cpu_device_def)

lemma strategy_for_cases:
  "strategy_for h [] = OneDeviceStrategy h ''/cpu:0''"
  "strategy_for h [n] = OneDeviceStrategy h n"
  "2 \<le> length names \<Longrightarrow> strategy_for h names = MirroredStrategy h names"
  by (cases names; cases "tl names"; simp add: strategy_for_def)+

section \<open>The shape of the strategy\<close>

lemma build_strategy_ok:
  assumes "cls_strategy w = None" and "growth_failure env w = None"
    and "short_names (cls_device_list w) = Inr names" and "construct_error env names = None"
  shows "build_strategy env w =
           (Inr (),
            w\<lparr>tf_log := tf_log w @ growth_calls env w @ [construct_call names],
              cls_strategy := Some (strategy_for (tf_next w) names),
              tf_next := Suc (tf_next w)\<rparr>)"
  using assms by (simp add: build_strategy_None)

lemma build_strategy_returned:
  assumes "cls_strategy w = None" and "build_strategy env w = (Inr u, w')"
  shows "\<exists>names. short_names (cls_device_list w) = Inr names
           \<and> growth_failure env w = None \<and> construct_error env names = None
           \<and> w' = w\<lparr>tf_log := tf_log w @ growth_calls env w @ [construct_call names],
                     cls_strategy := Some (strategy_for (tf_next w) names),
                     tf_next := Suc (tf_next w)\<rparr>"
  using assms(2) build_strategy_None [OF assms(1), of env]
  by (auto split: option.splits sum.splits)

text \<open>
  On the example host a selection that names a GPU twice is not built: the constructor
  of the mirrored strategy raises, and no strategy is cached.
\<close>

lemma duplicate_selection_not_built:
  "build_strategy (two_gpu_host None)
       (initial\<lparr>cls_device := Some ''gpu'',
          cls_device_list := [gpu_device 0, gpu_device 0]\<rparr>)
     = (Inl AssertionError,
        initial\<lparr>cls_device := Some ''gpu'', cls_device_list := [gpu_device 0, gpu_device 0],
          tf_log := [SetMemoryGrowth (gpu_device 0) False, SetMemoryGrowth (gpu_device 1) False,
                     NewMirroredStrategy [''/gpu:0'', ''/gpu:0'']]\<rparr>)"
proof -
  have "short_names [gpu_device 0, gpu_device 0] = Inr [''/gpu:0'', ''/gpu:0'']"
    using short_names_Cons [of "gpu_device 0" "[gpu_device 0]"]
    by (simp add: short_names_gpu_device_0)
  then show ?thesis
    by (simp add: build_strategy_None initial_def growth_failure_def growth_calls_def
        growth_raised_def growth_attempted_def two_gpu_host_def construct_error_def
        construct_call_def)
qed

text \<open>
  C1: a build is a call of \<^verbatim>\<open>_build_strategy\<close> with no cached strategy that returns.
  The strategy it caches, which \<^verbatim>\<open>strategy\<close> returns, of which \<^verbatim>\<open>scope\<close> returns a
  new scope and whose replicas \<^verbatim>\<open>replica\<close> counts, is decided by the number of selected
  devices: none gives the one-device strategy on \<^verbatim>\<open>/cpu:0\<close>; one gives the one-device
  strategy on that device's short name; two or more give the mirrored strategy over the
  short names of all selected devices, in the order of the selection. The call returns
  when no exception escapes the growth block, every selected device has a colon in its
  name, and the framework's constructor accepts the names.
\<close>

theorem build_strategy_shape:
  assumes "cls_strategy w = None"
  shows "(\<forall>u w'. build_strategy env w = (Inr u, w') \<longrightarrow>
           (\<exists>st. cls_strategy w' = Some st
              \<and> strategy env w = (Inr (Some st), w')
              \<and> scope env w
                  = (Inr (StrategyScope (Suc (tf_next w)) st),
                     w'\<lparr>tf_next := Suc (Suc (tf_next w)),
                        tf_again := removeAll (StrategyScope (Suc (tf_next w)) st) (tf_again w)\<rparr>)
              \<and> replica env w = (Inr (num_replicas_in_sync st), w')
              \<and> (cls_device_list w = [] \<longrightarrow> st = OneDeviceStrategy (tf_next w) ''/cpu:0'')
              \<and> (\<forall>d. cls_device_list w = [d] \<longrightarrow>
                    (\<exists>n. short_names [d] = Inr [n] \<and> st = OneDeviceStrategy (tf_next w) n))
              \<and> (2 \<le> length (cls_device_list w) \<longrightarrow>
                    (\<exists>names. list_all2 (\<lambda>d n. short_names [d] = Inr [n])
                                (cls_device_list w) names
                       \<and> st = MirroredStrategy (tf_next w) names))))
     \<and> (growth_failure env w = None
          \<and> (\<forall>d \<in> set (cls_device_list w). CHR '':'' \<in> set (name d))
          \<and> (\<forall>names. short_names (cls_device_list w) = Inr names
                \<longrightarrow> construct_error env names = None)
        \<longrightarrow> (\<exists>w'. build_strategy env w = (Inr (), w')))"
proof (intro conjI allI impI)
  fix u w'
  assume b: "build_strategy env w = (Inr u, w')"
  obtain names where names: "short_names (cls_device_list w) = Inr names"
    and w': "w' = w\<lparr>tf_log := tf_log w @ growth_calls env w @ [construct_call names],
                     cls_strategy := Some (strategy_for (tf_next w) names),
                     tf_next := Suc (tf_next w)\<rparr>"
    using build_strategy_returned [OF assms b] by blast
  have pw: "list_all2 (\<lambda>d n. short_names [d] = Inr [n]) (cls_device_list w) names"
    using names by (rule iffD1 [OF short_names_pointwise])
  then have len: "length names = length (cls_device_list w)"
    by (simp add: list_all2_lengthD)
  define st where "st = strategy_for (tf_next w) names"
  have st: "cls_strategy w' = Some st" by (simp add: w' st_def)
  have s: "strategy env w = (Inr (Some st), w')"
    using b st by (simp add: strategy_def)
  have sc: "scope env w
      = (Inr (StrategyScope (Suc (tf_next w)) st),
         w'\<lparr>tf_next := Suc (Suc (tf_next w)),
            tf_again := removeAll (StrategyScope (Suc (tf_next w)) st) (tf_again w)\<rparr>)"
    using b st by (simp add: scope_def tf_scope_def Let_def) (simp add: w')
  have r: "replica env w = (Inr (num_replicas_in_sync st), w')"
    using s by (simp add: replica_def)
  have c0: "cls_device_list w = [] \<longrightarrow> st = OneDeviceStrategy (tf_next w) ''/cpu:0''"
    using len by (auto simp add: st_def strategy_for_cases)
  have c1: "\<forall>d. cls_device_list w = [d] \<longrightarrow>
            (\<exists>n. short_names [d] = Inr [n] \<and> st = OneDeviceStrategy (tf_next w) n)"
  proof (intro allI impI)
    fix d assume d: "cls_device_list w = [d]"
    with pw obtain n where "names = [n]" and "short_names [d] = Inr [n]"
      by (auto simp add: list_all2_Cons1)
    then show "\<exists>n. short_names [d] = Inr [n] \<and> st = OneDeviceStrategy (tf_next w) n"
      by (auto simp add: st_def strategy_for_cases)
  qed
  have c2: "2 \<le> length (cls_device_list w) \<longrightarrow>
            (\<exists>names. list_all2 (\<lambda>d n. short_names [d] = Inr [n]) (cls_device_list w) names
               \<and> st = MirroredStrategy (tf_next w) names)"
  proof
    assume "2 \<le> length (cls_device_list w)"
    with len have "st = MirroredStrategy (tf_next w) names"
      by (simp add: st_def strategy_for_cases)
    with pw show "\<exists>names. list_all2 (\<lambda>d n. short_names [d] = Inr [n]) (cls_device_list w) names
               \<and> st = MirroredStrategy (tf_next w) names"
      by blast
  qed
  show "\<exists>st. cls_strategy w' = Some st
              \<and> strategy env w = (Inr (Some st), w')
              \<and> scope env w
                  = (Inr (StrategyScope (Suc (tf_next w)) st),
                     w'\<lparr>tf_next := Suc (Suc (tf_next w)),
                        tf_again := removeAll (StrategyScope (Suc (tf_next w)) st) (tf_again w)\<rparr>)
              \<and> replica env w = (Inr (num_replicas_in_sync st), w')
              \<and> (cls_device_list w = [] \<longrightarrow> st = OneDeviceStrategy (tf_next w) ''/cpu:0'')
              \<and> (\<forall>d. cls_device_list w = [d] \<longrightarrow>
                    (\<exists>n. short_names [d] = Inr [n] \<and> st = OneDeviceStrategy (tf_next w) n))
              \<and> (2 \<le> length (cls_device_list w) \<longrightarrow>
                    (\<exists>names. list_all2 (\<lambda>d n. short_names [d] = Inr [n])
                                (cls_device_list w) names
                       \<and> st = MirroredStrategy (tf_next w) names))"
    by (rule exI [of _ st]) (intro conjI st s sc r c0 c1 c2)
next
  assume h: "growth_failure env w = None
          \<and> (\<forall>d \<in> set (cls_device_list w). CHR '':'' \<in> set (name d))
          \<and> (\<forall>names. short_names (cls_device_list w) = Inr names
                \<longrightarrow> construct_error env names = None)"
  then obtain names where names: "short_names (cls_device_list w) = Inr names"
    using short_names_total [of "cls_device_list w"] by blast
  with h have ce: "construct_error env names = None" by blast
  from h have gf: "growth_failure env w = None" by simp
  show "\<exists>w'. build_strategy env w = (Inr (), w')"
    using build_strategy_ok [OF assms gf names ce] by simp
qed

theorem build_strategy_shape_witness:
  "cls_strategy (initial\<lparr>cls_device := Some ''gpu'',
        cls_device_list := [gpu_device 0, gpu_device 1]\<rparr>) = None
   \<and> growth_failure (two_gpu_host None) (initial\<lparr>cls_device := Some ''gpu'',
        cls_device_list := [gpu_device 0, gpu_device 1]\<rparr>) = None
   \<and> construct_error (two_gpu_host None) [''/gpu:0'', ''/gpu:1''] = None
   \<and> fst (build_strategy (two_gpu_host None) (initial\<lparr>cls_device := Some ''gpu'',
        cls_device_list := [gpu_device 0, gpu_device 1]\<rparr>)) = Inr ()
   \<and> fst (strategy (two_gpu_host None) (initial\<lparr>cls_device := Some ''gpu'',
        cls_device_list := [gpu_device 0, gpu_device 1]\<rparr>))
       = Inr (Some (MirroredStrategy 0 [''/gpu:0'', ''/gpu:1'']))"
proof -
  define W where "W = initial\<lparr>cls_device := Some ''gpu'',
        cls_device_list := [gpu_device 0, gpu_device 1]\<rparr>"
  define E where "E = two_gpu_host None"
  have h1: "cls_strategy W = None" by (simp add: W_def initial_def)
  have h2: "growth_failure E W = None"
    by (simp add: E_def W_def initial_def growth_failure_def growth_raised_def two_gpu_host_def)
  have h3: "\<forall>d \<in> set (cls_device_list W). CHR '':'' \<in> set (name d)"
    by (simp add: W_def colon_in_example_names)
  have l: "cls_device_list W = [gpu_device 0, gpu_device 1]" and n: "tf_next W = 0"
    by (simp_all add: W_def initial_def)
  have sn: "short_names (cls_device_list W) = Inr [''/gpu:0'', ''/gpu:1'']"
    by (simp add: W_def short_names_gpu_devices_Suc_0)
  have ce: "construct_error E [''/gpu:0'', ''/gpu:1''] = None"
    by (simp add: E_def construct_error_def two_gpu_host_def)
  have h4: "\<forall>names. short_names (cls_device_list W) = Inr names
                \<longrightarrow> construct_error E names = None"
    using sn ce by simp
  note t = build_strategy_shape [OF h1, of E]
  have "\<exists>w'. build_strategy E W = (Inr (), w')"
    using t [THEN conjunct2] h2 h3 h4 by simp
  then obtain w' where b: "build_strategy E W = (Inr (), w')" ..
  have two: "2 \<le> length (cls_device_list W)" by (simp add: l)
  from t [THEN conjunct1, rule_format, OF b]
  obtain st where s: "strategy E W = (Inr (Some st), w')"
    and m: "2 \<le> length (cls_device_list W) \<longrightarrow>
                    (\<exists>names. list_all2 (\<lambda>d n. short_names [d] = Inr [n])
                                (cls_device_list W) names
                       \<and> st = MirroredStrategy (tf_next W) names)"
    by (elim exE conjE) (rule that, assumption+)
  from m two obtain names
    where pw: "list_all2 (\<lambda>d n. short_names [d] = Inr [n]) (cls_device_list W) names"
    and st: "st = MirroredStrategy (tf_next W) names"
    by blast
  from pw l have "names = [''/gpu:0'', ''/gpu:1'']"
    by (auto simp add: list_all2_Cons1 short_names_gpu_device_0 short_names_gpu_device_Suc_0)
  with b s st n h1 h2 ce show ?thesis
    by (simp add: W_def E_def)
qed

section \<open>Memory growth\<close>

text \<open>
  C4, as the code has it: a build with no cached strategy first makes the growth calls
  of the world and only then, if it gets that far, calls the constructor of the strategy:
  the calls it adds to the framework's log are the growth calls followed by at most the
  one call of the constructor. For a device type other than \<^verbatim>\<open>gpu\<close> there are no
  growth calls. For \<^verbatim>\<open>gpu\<close> the current growth flag is set on the GPUs the framework
  reports, in order, up to and including the first one for which the framework raises;
  if none raises these are all GPUs. A \<^verbatim>\<open>RuntimeError\<close> raised there is swallowed: the
  constructor is called for the selection, and the strategy is cached if the constructor
  accepts the names. Any other exception leaves the build: the constructor is not called
  and no strategy is cached.
\<close>

theorem growth_before_build:
  assumes "cls_strategy w = None"
  shows "\<exists>r w'. build_strategy env w = (r, w')
     \<and> (tf_log w' = tf_log w @ growth_calls env w
          \<or> (\<exists>names. short_names (cls_device_list w) = Inr names
                \<and> tf_log w' = tf_log w @ growth_calls env w @ [construct_call names]))
     \<and> (cls_device w \<noteq> Some ''gpu'' \<longrightarrow> growth_calls env w = [])
     \<and> (cls_device w = Some ''gpu'' \<longrightarrow>
          growth_calls env w
            = map (\<lambda>d. SetMemoryGrowth d (cls_growth w)) (growth_attempted env w))
     \<and> (growth_raised env w = None \<longrightarrow>
          growth_attempted env w = list_physical_devices env ''GPU'')
     \<and> (cls_device w = Some ''gpu'' \<and> growth_raised env w = Some RuntimeError \<longrightarrow>
          (\<forall>names. short_names (cls_device_list w) = Inr names \<longrightarrow>
             tf_log w' = tf_log w @ growth_calls env w @ [construct_call names]
             \<and> (case construct_error env names of
                  None \<Rightarrow> r = Inr () \<and> cls_strategy w' = Some (strategy_for (tf_next w) names)
                | Some e \<Rightarrow> r = Inl e \<and> cls_strategy w' = None)))
     \<and> (\<forall>e. cls_device w = Some ''gpu'' \<and> growth_raised env w = Some e \<and> e \<noteq> RuntimeError \<longrightarrow>
          r = Inl e \<and> cls_strategy w' = None \<and> tf_log w' = tf_log w @ growth_calls env w)"
proof -
  obtain r w' where b: "build_strategy env w = (r, w')" by (cases "build_strategy env w")
  have calls: "tf_log w' = tf_log w @ growth_calls env w
          \<or> (\<exists>names. short_names (cls_device_list w) = Inr names
                \<and> tf_log w' = tf_log w @ growth_calls env w @ [construct_call names])"
    using b assms by (auto simp add: build_strategy_None split: option.splits sum.splits)
  have a: "growth_raised env w = None \<longrightarrow>
          growth_attempted env w = list_physical_devices env ''GPU''"
    by (simp add: growth_raised_def growth_attempted_def raised_None_attempted)
  have rt: "cls_device w = Some ''gpu'' \<and> growth_raised env w = Some RuntimeError \<longrightarrow>
          (\<forall>names. short_names (cls_device_list w) = Inr names \<longrightarrow>
             tf_log w' = tf_log w @ growth_calls env w @ [construct_call names]
             \<and> (case construct_error env names of
                  None \<Rightarrow> r = Inr () \<and> cls_strategy w' = Some (strategy_for (tf_next w) names)
                | Some e \<Rightarrow> r = Inl e \<and> cls_strategy w' = None))"
    using b assms
    by (auto simp add: build_strategy_None growth_failure_def split: option.splits)
  have other: "\<forall>e. cls_device w = Some ''gpu'' \<and> growth_raised env w = Some e \<and> e \<noteq> RuntimeError \<longrightarrow>
          r = Inl e \<and> cls_strategy w' = None \<and> tf_log w' = tf_log w @ growth_calls env w"
    using b assms by (auto simp add: build_strategy_None growth_failure_def)
  have g0: "cls_device w \<noteq> Some ''gpu'' \<longrightarrow> growth_calls env w = []"
    and g1: "cls_device w = Some ''gpu'' \<longrightarrow>
          growth_calls env w
            = map (\<lambda>d. SetMemoryGrowth d (cls_growth w)) (growth_attempted env w)"
    by (simp_all add: growth_calls_def)
  show ?thesis
    by (rule exI [of _ r], rule exI [of _ w']) (intro conjI b calls g0 g1 a rt other)
qed

theorem growth_before_build_witness:
  "cls_strategy (initial\<lparr>cls_device := Some ''gpu'',
        cls_device_list := [gpu_device 0, gpu_device 1]\<rparr>) = None
   \<and> fst (build_strategy (two_gpu_host (Some RuntimeError)) (initial\<lparr>cls_device := Some ''gpu'',
        cls_device_list := [gpu_device 0, gpu_device 1]\<rparr>)) = Inr ()
   \<and> tf_log (snd (build_strategy (two_gpu_host (Some RuntimeError))
        (initial\<lparr>cls_device := Some ''gpu'',
           cls_device_list := [gpu_device 0, gpu_device 1]\<rparr>)))
       = [SetMemoryGrowth (gpu_device 0) False, NewMirroredStrategy [''/gpu:0'', ''/gpu:1'']]
   \<and> cls_strategy (snd (build_strategy (two_gpu_host (Some RuntimeError))
        (initial\<lparr>cls_device := Some ''gpu'',
           cls_device_list := [gpu_device 0, gpu_device 1]\<rparr>)))
       = Some (MirroredStrategy 0 [''/gpu:0'', ''/gpu:1''])"
proof -
  define W where "W = initial\<lparr>cls_device := Some ''gpu'',
        cls_device_list := [gpu_device 0, gpu_device 1]\<rparr>"
  define E where "E = two_gpu_host (Some RuntimeError)"
  have h: "cls_strategy W = None" by (simp add: W_def initial_def)
  have d: "cls_device W = Some ''gpu''" and n: "tf_next W = 0"
    and c: "tf_log W = []"
    by (simp_all add: W_def initial_def)
  have r: "growth_raised E W = Some RuntimeError"
    by (simp add: E_def growth_raised_def two_gpu_host_def)
  have a: "growth_attempted E W = [gpu_device 0]"
    by (simp add: E_def growth_attempted_def two_gpu_host_def)
  have g: "cls_growth W = False" by (simp add: W_def initial_def)
  have s: "short_names (cls_device_list W) = Inr [''/gpu:0'', ''/gpu:1'']"
    by (simp add: W_def short_names_gpu_devices_Suc_0)
  have f: "strategy_for 0 [''/gpu:0'', ''/gpu:1''] = MirroredStrategy 0 [''/gpu:0'', ''/gpu:1'']"
    and cc: "construct_call [''/gpu:0'', ''/gpu:1''] = NewMirroredStrategy [''/gpu:0'', ''/gpu:1'']"
    and ce: "construct_error E [''/gpu:0'', ''/gpu:1''] = None"
    by (simp_all add: strategy_for_def construct_call_def construct_error_def E_def
        two_gpu_host_def)
  obtain r' w' where "build_strategy E W = (r', w')"
    and "growth_calls E W = map (\<lambda>d. SetMemoryGrowth d (cls_growth W)) (growth_attempted E W)"
    and "tf_log w' = tf_log W @ growth_calls E W @ [construct_call [''/gpu:0'', ''/gpu:1'']]"
    and "r' = Inr ()" and "cls_strategy w' = Some (strategy_for (tf_next W) [''/gpu:0'', ''/gpu:1''])"
    using growth_before_build [OF h, of E] d r s ce by auto
  with h a g c n f cc show ?thesis
    by (simp add: W_def E_def)
qed

text \<open>
  C4 as stated fails: after \<^verbatim>\<open>cpu()\<close> on a host with two GPUs the build sets no memory
  growth at all, and after \<^verbatim>\<open>gpu()\<close> a \<^verbatim>\<open>ValueError\<close> of the framework while setting
  the growth ends the build with that error, after one call and with no strategy.
\<close>

theorem growth_always_applied_counterexample:
  "cls_strategy (initial\<lparr>cls_device := Some ''cpu'', cls_device_list := [cpu_device]\<rparr>) = None
   \<and> list_physical_devices (two_gpu_host None) ''GPU'' = [gpu_device 0, gpu_device 1]
   \<and> build_strategy (two_gpu_host None)
        (initial\<lparr>cls_device := Some ''cpu'', cls_device_list := [cpu_device]\<rparr>)
       = (Inr (), initial\<lparr>cls_device := Some ''cpu'', cls_device_list := [cpu_device],
                    cls_strategy := Some (OneDeviceStrategy 0 ''/cpu:0''), tf_next := 1,
                    tf_log := [NewOneDeviceStrategy ''/cpu:0'']\<rparr>)
   \<and> build_strategy (two_gpu_host (Some ValueError))
        (initial\<lparr>cls_device := Some ''gpu'', cls_device_list := [gpu_device 0, gpu_device 1]\<rparr>)
       = (Inl ValueError,
          initial\<lparr>cls_device := Some ''gpu'', cls_device_list := [gpu_device 0, gpu_device 1],
            tf_log := [SetMemoryGrowth (gpu_device 0) False]\<rparr>)"
proof -
  have 1: "build_strategy (two_gpu_host None)
        (initial\<lparr>cls_device := Some ''cpu'', cls_device_list := [cpu_device]\<rparr>)
       = (Inr (), initial\<lparr>cls_device := Some ''cpu'', cls_device_list := [cpu_device],
                    cls_strategy := Some (OneDeviceStrategy 0 ''/cpu:0''), tf_next := 1,
                    tf_log := [NewOneDeviceStrategy ''/cpu:0'']\<rparr>)"
    by (simp add: build_strategy_None initial_def growth_failure_def growth_calls_def
        short_names_cpu_device strategy_for_def construct_error_def construct_call_def
        two_gpu_host_def)
  have 2: "build_strategy (two_gpu_host (Some ValueError))
        (initial\<lparr>cls_device := Some ''gpu'', cls_device_list := [gpu_device 0, gpu_device 1]\<rparr>)
       = (Inl ValueError,
          initial\<lparr>cls_device := Some ''gpu'', cls_device_list := [gpu_device 0, gpu_device 1],
            tf_log := [SetMemoryGrowth (gpu_device 0) False]\<rparr>)"
    by (simp add: build_strategy_None initial_def growth_failure_def growth_calls_def
        growth_raised_def growth_attempted_def two_gpu_host_def)
  from 1 2 show ?thesis
    by (simp add: initial_def two_gpu_host_def)
qed

section \<open>A failed selection\<close>

text \<open>
  C9: when \<^verbatim>\<open>cpu\<close> or \<^verbatim>\<open>gpu\<close> raises, the world differs from the one before the call
  only in the device type, which names the requested type: the selection and the cached
  strategy are the old ones. A cached strategy is what \<^verbatim>\<open>strategy\<close> then returns; with
  none cached, a strategy that \<^verbatim>\<open>strategy\<close> then builds is the one for the old selection,
  while the device type stays the new one.
\<close>

theorem failed_select_state:
  assumes "(kind = ''cpu'' \<and> cpu env ds w = (Inl e, w1))
         \<or> (kind = ''gpu'' \<and> gpu env ds w = (Inl e, w1))"
  shows "w1 = w\<lparr>cls_device := Some kind\<rparr>
     \<and> cls_device_list w1 = cls_device_list w \<and> cls_strategy w1 = cls_strategy w
     \<and> cls_device w1 = Some kind
     \<and> (\<forall>st. cls_strategy w = Some st \<longrightarrow> strategy env w1 = (Inr (Some st), w1))
     \<and> (cls_strategy w = None \<longrightarrow>
          (\<forall>r w2. strategy env w1 = (Inr r, w2) \<longrightarrow>
             (\<exists>names. short_names (cls_device_list w) = Inr names
                \<and> r = Some (strategy_for (tf_next w) names))
             \<and> cls_device w2 = Some kind \<and> cls_device_list w2 = cls_device_list w))"
proof -
  have w1: "w1 = w\<lparr>cls_device := Some kind\<rparr>"
    using assms by (auto simp add: cpu_def gpu_def Let_def split: sum.splits)
  have cached: "strategy env w1 = (Inr (Some st), w1)" if "cls_strategy w = Some st" for st
    using that by (simp add: w1 strategy_def build_strategy_Some)
  have built: "(\<exists>names. short_names (cls_device_list w) = Inr names
                \<and> r = Some (strategy_for (tf_next w) names))
             \<and> cls_device w2 = Some kind \<and> cls_device_list w2 = cls_device_list w"
    if none: "cls_strategy w = None" and s: "strategy env w1 = (Inr r, w2)" for r w2
  proof -
    have "cls_strategy w1 = None" using none by (simp add: w1)
    from s build_strategy_None [OF this, of env] show ?thesis
      by (auto simp add: strategy_def w1 split: option.splits sum.splits)
  qed
  from w1 cached built show ?thesis by auto
qed

theorem failed_select_state_witness:
  "gpu (two_gpu_host None) (One (IntId 2))
       (initial\<lparr>cls_device := Some ''cpu'', cls_device_list := [cpu_device]\<rparr>)
     = (Inl (IndexError (DeviceNotAvailable (IntId 2))),
        initial\<lparr>cls_device := Some ''gpu'', cls_device_list := [cpu_device]\<rparr>)
   \<and> strategy (two_gpu_host None)
        (initial\<lparr>cls_device := Some ''gpu'', cls_device_list := [cpu_device]\<rparr>)
     = (Inr (Some (OneDeviceStrategy 0 ''/cpu:0'')),
        initial\<lparr>cls_device := Some ''gpu'', cls_device_list := [cpu_device],
          cls_strategy := Some (OneDeviceStrategy 0 ''/cpu:0''), tf_next := 1,
          tf_log := [SetMemoryGrowth (gpu_device 0) False, SetMemoryGrowth (gpu_device 1) False,
                     NewOneDeviceStrategy ''/cpu:0'']\<rparr>)"
proof -
  define W where "W = initial\<lparr>cls_device := Some ''cpu'', cls_device_list := [cpu_device]\<rparr>"
  define W1 where "W1 = initial\<lparr>cls_device := Some ''gpu'', cls_device_list := [cpu_device]\<rparr>"
  have g: "gpu (two_gpu_host None) (One (IntId 2)) W
     = (Inl (IndexError (DeviceNotAvailable (IntId 2))), W1)"
    by (simp add: W_def W1_def gpu_def select_from_available_def two_gpu_host_def initial_def)
  have s: "strategy (two_gpu_host None) W1
     = (Inr (Some (OneDeviceStrategy 0 ''/cpu:0'')),
        W1\<lparr>cls_strategy := Some (OneDeviceStrategy 0 ''/cpu:0''), tf_next := 1,
          tf_log := [SetMemoryGrowth (gpu_device 0) False, SetMemoryGrowth (gpu_device 1) False,
                     NewOneDeviceStrategy ''/cpu:0'']\<rparr>)"
    by (simp add: strategy_def build_strategy_None W1_def initial_def growth_failure_def
        growth_calls_def growth_raised_def growth_attempted_def two_gpu_host_def
        short_names_cpu_device strategy_for_def construct_error_def construct_call_def)
  have n: "cls_strategy W = None" "tf_next W = 0" "cls_device_list W = [cpu_device]"
    by (simp_all add: W_def initial_def)
  from failed_select_state [of "''gpu''" "two_gpu_host None" "One (IntId 2)" W
      "IndexError (DeviceNotAvailable (IntId 2))" W1] g s n
  show ?thesis
    by (simp add: W_def W1_def)
qed

section \<open>The cached strategy follows the selection\<close>





lemma build_strategy_frame:
  "cls_scope (snd (build_strategy env w)) = cls_scope w
   \<and> tf_entered (snd (build_strategy env w)) = tf_entered w
   \<and> tf_again (snd (build_strategy env w)) = tf_again w
   \<and> cls_device_list (snd (build_strategy env w)) = cls_device_list w
   \<and> cls_device (snd (build_strategy env w)) = cls_device w
   \<and> tf_next w \<le> tf_next (snd (build_strategy env w))"
proof (cases "cls_strategy w")
  case (Some st)
  then show ?thesis by (simp add: build_strategy_Some)
next
  case None
  then show ?thesis
    by (simp add: build_strategy_None split: option.splits sum.splits)
qed

lemma build_strategy_Inr:
  assumes "build_strategy env w = (Inr u, w1)"
  shows "\<exists>st. cls_strategy w1 = Some st"
proof (cases "cls_strategy w")
  case (Some st)
  with assms show ?thesis by (simp add: build_strategy_Some)
next
  case None
  with assms show ?thesis
    by (auto simp add: build_strategy_None split: option.splits sum.splits)
qed




lemma scope_Inr:
  assumes "scope env w = (Inr sc, w1)"
  shows "cls_strategy w1 = Some (scope_strategy sc)
     \<and> cls_scope w1 = cls_scope w
     \<and> tf_entered w1 = tf_entered w
     \<and> tf_again w1 = removeAll sc (tf_again w)"
proof -
  obtain u w0 where b: "build_strategy env w = (Inr u, w0)"
    using assms
    by (cases "build_strategy env w") (auto simp add: scope_def split: sum.splits)
  then obtain st where st: "cls_strategy w0 = Some st"
    using build_strategy_Inr by blast
  from assms b st have "sc = StrategyScope (tf_next w0) st"
    and "w1 = w0\<lparr>tf_next := Suc (tf_next w0), tf_again := removeAll sc (tf_again w0)\<rparr>"
    by (auto simp add: scope_def tf_scope_def Let_def)
  with st build_strategy_frame [of env w] b show ?thesis by simp
qed

















section \<open>Entering and leaving the scope\<close>

lemma enter_Inr:
  assumes "enter env w = (Inr st, w1)"
  shows "\<exists>sc. cls_scope w1 = Some sc \<and> scope_strategy sc = st \<and> cls_strategy w1 = Some st
     \<and> (tf_entered w = [] \<longrightarrow>
          tf_entered w1 = [sc] \<and> tf_again w1 = removeAll sc (tf_again w))
     \<and> (tf_entered w \<noteq> [] \<longrightarrow>
          tf_entered w1 = tf_entered w \<and> tf_again w1 = sc # removeAll sc (tf_again w))"
proof -
  obtain sc w0 where sc: "scope env w = (Inr sc, w0)"
    and e: "scope_enter sc (w0\<lparr>cls_scope := Some sc\<rparr>) = (Inr st, w1)"
    using assms by (cases "scope env w") (auto simp add: enter_def split: sum.splits)
  note f = scope_Inr [OF sc]
  from e f have "cls_scope w1 = Some sc" and "scope_strategy sc = st"
    and "cls_strategy w1 = Some st"
    and "tf_entered w = [] \<longrightarrow>
          tf_entered w1 = [sc] \<and> tf_again w1 = removeAll sc (tf_again w)"
    and "tf_entered w \<noteq> [] \<longrightarrow>
          tf_entered w1 = tf_entered w \<and> tf_again w1 = sc # removeAll sc (tf_again w)"
    by (auto simp add: scope_enter_def split: list.splits if_splits)
  then show ?thesis by blast
qed

lemma exit_current:
  assumes "cls_scope w = Some sc" and "tf_entered w = [sc]" and "sc \<notin> set (tf_again w)"
  shows "exit env exc w = (Inr (scope_exit_result env sc exc), w\<lparr>tf_entered := []\<rparr>)"
  using assms by (simp add: exit_def scope_exit_def)

lemma exit_again:
  assumes "cls_scope w = Some sc" and "tf_again w = sc # rest"
  shows "exit env exc w = (Inr None, w\<lparr>tf_again := rest\<rparr>)"
  using assms by (simp add: exit_def scope_exit_def)

text \<open>
  C8, as the code has it: when \<^verbatim>\<open>__enter__\<close> returns, the scope it stored is a new scope
  of the cached strategy, and the framework has entered it: as the current scope when no
  scope was entered before, and otherwise counted as entered again. If the body leaves
  the stored scope and the scopes of the framework as it found them, whether it returns
  or raises, then \<^verbatim>\<open>__exit__\<close> returns what the stored scope's \<^verbatim>\<open>__exit__\<close> returns for
  the exception information it is given, and the scopes of the framework are again those
  from before \<^verbatim>\<open>__enter__\<close>; the \<^verbatim>\<open>with\<close> statement as a whole ends in that world, with
  the result of the body, or with its exception unless the scope's \<^verbatim>\<open>__exit__\<close>
  returned true.
\<close>

theorem scope_released:
  assumes "enter env w = (Inr st, w1)" and "foo w1 = (r, w2)"
    and "cls_scope w2 = cls_scope w1" and "tf_entered w2 = tf_entered w1"
    and "tf_again w2 = tf_again w1"
  shows "\<exists>sc. cls_scope w1 = Some sc \<and> scope_strategy sc = st \<and> cls_strategy w1 = Some st
      \<and> (tf_entered w = [] \<longrightarrow>
           tf_entered w1 = [sc] \<and> tf_again w1 = removeAll sc (tf_again w))
      \<and> (tf_entered w \<noteq> [] \<longrightarrow>
           tf_entered w1 = tf_entered w \<and> tf_again w1 = sc # removeAll sc (tf_again w))
      \<and> (\<forall>exc. exit env exc w2
            = (Inr (if tf_entered w = [] then scope_exit_result env sc exc else None),
               w2\<lparr>tf_entered := tf_entered w, tf_again := removeAll sc (tf_again w)\<rparr>))
      \<and> with_self env foo w
          = (case r of
               Inr v \<Rightarrow> Inr (Some v)
             | Inl e \<Rightarrow>
                 if tf_entered w = [] \<and> scope_exit_result env sc (Some e) = Some True
                 then Inr None else Inl e,
             w2\<lparr>tf_entered := tf_entered w, tf_again := removeAll sc (tf_again w)\<rparr>)"
proof -
  obtain sc where sc: "cls_scope w1 = Some sc" and st: "scope_strategy sc = st"
    and cs: "cls_strategy w1 = Some st"
    and first: "tf_entered w = [] \<longrightarrow>
           tf_entered w1 = [sc] \<and> tf_again w1 = removeAll sc (tf_again w)"
    and again: "tf_entered w \<noteq> [] \<longrightarrow>
           tf_entered w1 = tf_entered w \<and> tf_again w1 = sc # removeAll sc (tf_again w)"
    using enter_Inr [OF assms(1)] by blast
  have ex: "exit env exc w2
      = (Inr (if tf_entered w = [] then scope_exit_result env sc exc else None),
         w2\<lparr>tf_entered := tf_entered w, tf_again := removeAll sc (tf_again w)\<rparr>)" for exc
  proof (cases "tf_entered w = []")
    case True
    with first have e: "tf_entered w2 = [sc]" and a: "tf_again w2 = removeAll sc (tf_again w)"
      by (simp_all add: assms(4) assms(5))
    have "exit env exc w2 = (Inr (scope_exit_result env sc exc), w2\<lparr>tf_entered := []\<rparr>)"
      by (rule exit_current) (simp_all add: assms(3) sc e a)
    moreover have "w2\<lparr>tf_entered := [], tf_again := removeAll sc (tf_again w)\<rparr>
        = w2\<lparr>tf_entered := []\<rparr>"
      using a by simp
    ultimately show ?thesis using True by simp
  next
    case False
    with again have e: "tf_entered w2 = tf_entered w"
      and a: "tf_again w2 = sc # removeAll sc (tf_again w)"
      by (simp_all add: assms(4) assms(5))
    have "exit env exc w2 = (Inr None, w2\<lparr>tf_again := removeAll sc (tf_again w)\<rparr>)"
      by (rule exit_again) (simp_all add: assms(3) sc a)
    moreover have "w2\<lparr>tf_entered := tf_entered w, tf_again := removeAll sc (tf_again w)\<rparr>
        = w2\<lparr>tf_again := removeAll sc (tf_again w)\<rparr>"
      using e by simp
    ultimately show ?thesis using False by simp
  qed
  have ws: "with_self env foo w
          = (case r of
               Inr v \<Rightarrow> Inr (Some v)
             | Inl e \<Rightarrow>
                 if tf_entered w = [] \<and> scope_exit_result env sc (Some e) = Some True
                 then Inr None else Inl e,
             w2\<lparr>tf_entered := tf_entered w, tf_again := removeAll sc (tf_again w)\<rparr>)"
    by (cases r) (simp_all add: with_self_def assms(1) assms(2) ex)
  show ?thesis
    by (rule exI [of _ sc]) (intro conjI sc st cs first again allI ex ws)
qed

theorem scope_released_witness:
  "enter (two_gpu_host None)
       (initial\<lparr>cls_device := Some ''gpu'', cls_device_list := [gpu_device 0, gpu_device 1]\<rparr>)
     = (Inr (MirroredStrategy 0 [''/gpu:0'', ''/gpu:1'']),
        initial\<lparr>cls_device := Some ''gpu'', cls_device_list := [gpu_device 0, gpu_device 1],
          cls_strategy := Some (MirroredStrategy 0 [''/gpu:0'', ''/gpu:1'']), tf_next := 2,
          tf_log := [SetMemoryGrowth (gpu_device 0) False, SetMemoryGrowth (gpu_device 1) False,
                     NewMirroredStrategy [''/gpu:0'', ''/gpu:1'']],
          cls_scope := Some (StrategyScope 1 (MirroredStrategy 0 [''/gpu:0'', ''/gpu:1''])),
          tf_entered := [StrategyScope 1 (MirroredStrategy 0 [''/gpu:0'', ''/gpu:1''])]\<rparr>)
   \<and> with_self (two_gpu_host None) (\<lambda>w. (Inl ValueError :: exn + nat, w))
       (initial\<lparr>cls_device := Some ''gpu'', cls_device_list := [gpu_device 0, gpu_device 1]\<rparr>)
     = (Inl ValueError,
        initial\<lparr>cls_device := Some ''gpu'', cls_device_list := [gpu_device 0, gpu_device 1],
          cls_strategy := Some (MirroredStrategy 0 [''/gpu:0'', ''/gpu:1'']), tf_next := 2,
          tf_log := [SetMemoryGrowth (gpu_device 0) False, SetMemoryGrowth (gpu_device 1) False,
                     NewMirroredStrategy [''/gpu:0'', ''/gpu:1'']],
          cls_scope := Some (StrategyScope 1 (MirroredStrategy 0 [''/gpu:0'', ''/gpu:1''])),
          tf_entered := []\<rparr>)"
proof -
  define W where "W = initial\<lparr>cls_device := Some ''gpu'',
      cls_device_list := [gpu_device 0, gpu_device 1]\<rparr>"
  define st where "st = MirroredStrategy 0 [''/gpu:0'', ''/gpu:1'']"
  define W1 where "W1 = W\<lparr>cls_strategy := Some st, tf_next := 2,
      tf_log := [SetMemoryGrowth (gpu_device 0) False, SetMemoryGrowth (gpu_device 1) False,
                 NewMirroredStrategy [''/gpu:0'', ''/gpu:1'']],
      cls_scope := Some (StrategyScope 1 st), tf_entered := [StrategyScope 1 st]\<rparr>"
  define foo where "foo = (\<lambda>w :: world. (Inl ValueError :: exn + nat, w))"
  have e: "enter (two_gpu_host None) W = (Inr st, W1)"
    by (simp add: enter_def scope_def tf_scope_def scope_enter_def build_strategy_None
        W_def W1_def st_def initial_def growth_failure_def growth_calls_def growth_raised_def
        growth_attempted_def two_gpu_host_def short_names_gpu_devices_Suc_0 strategy_for_def
        construct_error_def construct_call_def)
  have f: "foo W1 = (Inl ValueError, W1)" by (simp add: foo_def)
  have r: "scope_exit_result (two_gpu_host None) sc exc = None" for sc exc
    by (simp add: two_gpu_host_def)
  have t: "tf_entered W = []" and a: "tf_again W = []" by (simp_all add: W_def initial_def)
  from scope_released [where foo = foo and r = "Inl ValueError" and ?w2.0 = W1, OF e f]
    e r t a show ?thesis
    by (simp add: W_def W1_def st_def foo_def)
qed

text \<open>
  C8 as stated fails, because the scope is stored in one attribute of the class. On a
  host with one CPU, a \<^verbatim>\<open>with\<close> on the manager inside a \<^verbatim>\<open>with\<close> on the manager stores a
  second scope over the first: the inner \<^verbatim>\<open>__exit__\<close> leaves the second scope, and the
  outer \<^verbatim>\<open>__exit__\<close> is forwarded to the second scope again and not to the scope that the
  outer \<^verbatim>\<open>__enter__\<close> entered. Although the body returned, the statement ends with the
  error of the framework and the first scope is still entered. The same happens when a
  function decorated with \<^verbatim>\<open>use_gpu0\<close> calls one decorated with \<^verbatim>\<open>use_cpu\<close>: the inner
  \<^verbatim>\<open>__enter__\<close> raises, since a scope of another strategy is current, and the scope of
  the outer call is never left.
\<close>

theorem scope_not_released_counterexample:
  "with_self (two_gpu_host None)
       (\<lambda>w. with_self (two_gpu_host None) (\<lambda>w. (Inr (1 :: nat), w)) w)
       (initial\<lparr>cls_device := Some ''cpu'', cls_device_list := [cpu_device]\<rparr>)
     = (Inl RuntimeError,
        initial\<lparr>cls_device := Some ''cpu'', cls_device_list := [cpu_device],
          cls_strategy := Some (OneDeviceStrategy 0 ''/cpu:0''),
          cls_scope := Some (StrategyScope 2 (OneDeviceStrategy 0 ''/cpu:0'')),
          tf_next := 3, tf_log := [NewOneDeviceStrategy ''/cpu:0''],
          tf_entered := [StrategyScope 1 (OneDeviceStrategy 0 ''/cpu:0'')]\<rparr>)
   \<and> fst (use_gpu 0 (two_gpu_host None)
            (\<lambda>w. use_cpu (two_gpu_host None) (\<lambda>w. (Inr (1 :: nat), w)) w) initial)
       = Inl RuntimeError
   \<and> tf_entered (snd (use_gpu 0 (two_gpu_host None)
            (\<lambda>w. use_cpu (two_gpu_host None) (\<lambda>w. (Inr (1 :: nat), w)) w) initial))
       = [StrategyScope 1 (OneDeviceStrategy 0 ''/gpu:0'')]"
proof -
  define E where "E = two_gpu_host None"
  define S where "S = OneDeviceStrategy 0 ''/cpu:0''"
  define W where "W = initial\<lparr>cls_device := Some ''cpu'', cls_device_list := [cpu_device]\<rparr>"
  define W1 where "W1 = W\<lparr>cls_strategy := Some S, cls_scope := Some (StrategyScope 1 S),
      tf_next := 2, tf_log := [NewOneDeviceStrategy ''/cpu:0''],
      tf_entered := [StrategyScope 1 S]\<rparr>"
  define W2 where "W2 = W1\<lparr>cls_scope := Some (StrategyScope 2 S), tf_next := 3,
      tf_again := [StrategyScope 2 S]\<rparr>"
  define W3 where "W3 = W2\<lparr>tf_again := []\<rparr>"
  define F where "F = (\<lambda>w :: world. (Inr (1 :: nat) :: exn + nat, w))"
  define B where "B = with_self E F"
  define D where "D = use_cpu E F"
  have e1: "enter E W = (Inr S, W1)"
    by (simp add: enter_def scope_def tf_scope_def scope_enter_def build_strategy_None
        W_def W1_def S_def E_def initial_def growth_failure_def growth_calls_def
        two_gpu_host_def short_names_cpu_device strategy_for_def construct_error_def
        construct_call_def)
  have e2: "enter E W1 = (Inr S, W2)"
    by (simp add: enter_def scope_def tf_scope_def scope_enter_def build_strategy_Some
        W_def W1_def W2_def S_def initial_def)
  have x2: "exit E None W2 = (Inr None, W3)"
    by (simp add: exit_def scope_exit_def W_def W1_def W2_def W3_def)
  have x1: "exit E None W3 = (Inl RuntimeError, W3)"
    by (simp add: exit_def scope_exit_def W_def W1_def W2_def W3_def S_def initial_def E_def
        two_gpu_host_def)
  have inner: "B W1 = (Inr (Some 1), W3)"
    by (simp add: B_def F_def with_self_def e2 x2)
  have nested: "with_self E B W = (Inl RuntimeError, W3)"
    by (simp add: with_self_def e1 inner x1)
  define G where "G = OneDeviceStrategy 0 ''/gpu:0''"
  define C where "C = OneDeviceStrategy 2 ''/cpu:0''"
  define LG where "LG = [SetMemoryGrowth (gpu_device 0) False,
      SetMemoryGrowth (gpu_device 1) False, NewOneDeviceStrategy ''/gpu:0'']"
  define V0 where "V0 = initial\<lparr>cls_device := Some ''gpu'', cls_device_list := [gpu_device 0]\<rparr>"
  define V1 where "V1 = V0\<lparr>cls_strategy := Some G, cls_scope := Some (StrategyScope 1 G),
      tf_next := 2, tf_log := LG, tf_entered := [StrategyScope 1 G]\<rparr>"
  define V2 where "V2 = V1\<lparr>cls_device := Some ''cpu'', cls_device_list := [cpu_device],
      cls_strategy := None\<rparr>"
  define V3 where "V3 = V2\<lparr>cls_strategy := Some C, cls_scope := Some (StrategyScope 3 C),
      tf_next := 4, tf_log := LG @ [NewOneDeviceStrategy ''/cpu:0'']\<rparr>"
  have g0: "gpu E (One (IntId 0)) initial = (Inr (), V0)"
    by (simp add: gpu_def select_from_available_def V0_def E_def initial_def
        two_gpu_host_def getitem_def)
  have f1: "enter E V0 = (Inr G, V1)"
    by (simp add: enter_def scope_def tf_scope_def scope_enter_def build_strategy_None
        V0_def V1_def G_def LG_def E_def initial_def growth_failure_def growth_calls_def
        growth_raised_def growth_attempted_def two_gpu_host_def short_names_gpu_device_0
        strategy_for_def construct_error_def construct_call_def)
  have c1: "cpu E (One (StrId ''all'')) V1 = (Inr (), V2)"
    by (simp add: cpu_def select_from_available_def V0_def V1_def V2_def E_def initial_def
        two_gpu_host_def)
  have f2: "enter E V2 = (Inl RuntimeError, V3)"
    by (simp add: enter_def scope_def tf_scope_def scope_enter_def build_strategy_None
        V0_def V1_def V2_def V3_def G_def C_def LG_def E_def initial_def growth_failure_def
        growth_calls_def two_gpu_host_def short_names_cpu_device strategy_for_def
        construct_error_def construct_call_def)
  have y1: "exit E (Some RuntimeError) V3 = (Inl RuntimeError, V3)"
    by (simp add: exit_def scope_exit_def V0_def V1_def V2_def V3_def G_def C_def initial_def
        E_def two_gpu_host_def)
  have inner_cpu: "D V1 = (Inl RuntimeError, V3)"
    by (simp add: D_def use_cpu_def c1 with_self_def f2)
  have decorated: "use_gpu 0 E D initial = (Inl RuntimeError, V3)"
    by (simp add: use_gpu_def g0 with_self_def f1 inner_cpu y1)
  have v3: "tf_entered V3 = [StrategyScope 1 G]"
    by (simp add: V3_def V2_def V1_def)
  have w3: "W3 = initial\<lparr>cls_device := Some ''cpu'', cls_device_list := [cpu_device],
          cls_strategy := Some (OneDeviceStrategy 0 ''/cpu:0''),
          cls_scope := Some (StrategyScope 2 (OneDeviceStrategy 0 ''/cpu:0'')),
          tf_next := 3, tf_log := [NewOneDeviceStrategy ''/cpu:0''],
          tf_entered := [StrategyScope 1 (OneDeviceStrategy 0 ''/cpu:0'')]\<rparr>"
    by (simp add: W3_def W2_def W1_def W_def S_def initial_def)
  from nested decorated v3 w3 show ?thesis
    by (simp add: E_def W_def G_def B_def D_def F_def)
qed

end
